theory Spec2Isabelle
  imports Main
begin

section \<open>Python values used by the bot\<close>

text \<open>
  A Python \<open>str\<close> is a sequence of Unicode code points and \<open>len\<close> counts code points,
  so a string is a list of code-point numbers. ASCII literals of the source are written
  as HOL string literals and converted with \<open>str\<close>.
\<close>

type_synonym pystr = "nat list"

definition str :: "string \<Rightarrow> pystr" where
  "str cs = map of_char cs"

text \<open>
  The characters that \<open>str.strip()\<close> and \<open>str.split()\<close> (both called without an
  argument) treat as whitespace: the code points for which CPython's
  \<open>Py_UNICODE_ISSPACE\<close> holds.
\<close>

definition isspace :: "nat \<Rightarrow> bool" where
  "isspace c \<longleftrightarrow>
     (0x09 \<le> c \<and> c \<le> 0x0D) \<or> (0x1C \<le> c \<and> c \<le> 0x20) \<or> c = 0x85 \<or> c = 0xA0 \<or>
     c = 0x1680 \<or> (0x2000 \<le> c \<and> c \<le> 0x200A) \<or> c = 0x2028 \<or> c = 0x2029 \<or>
     c = 0x202F \<or> c = 0x205F \<or> c = 0x3000"

text \<open>\<open>text.strip()\<close>: leading and trailing whitespace removed.\<close>

definition strip :: "pystr \<Rightarrow> pystr" where
  "strip s = rev (dropWhile isspace (rev (dropWhile isspace s)))"

text \<open>
  \<open>text.split()\<close>: skip a run of whitespace, collect the following run of
  non-whitespace characters as one token, and repeat until the text is exhausted.
\<close>

function split :: "pystr \<Rightarrow> pystr list" where
  "split s =
     (let rest = dropWhile isspace s in
      if rest = [] then []
      else takeWhile (\<lambda>c. \<not> isspace c) rest # split (dropWhile (\<lambda>c. \<not> isspace c) rest))"
  by pat_completeness auto
termination
proof (relation "measure length")
  show "wf (measure length)" by simp
next
  fix s rest :: pystr
  assume r: "rest = dropWhile isspace s" and ne: "rest \<noteq> []"
  have "length (dropWhile (\<lambda>c. \<not> isspace c) rest) < length rest"
  proof (cases rest)
    case Nil
    with ne show ?thesis by simp
  next
    case (Cons c cs)
    with r have "\<not> isspace c"
      by (metis hd_dropWhile list.sel(1) ne)
    with Cons show ?thesis
      by (simp add: le_imp_less_Suc length_dropWhile_le)
  qed
  also have "length rest \<le> length s"
    using r by (simp add: length_dropWhile_le)
  finally show "(dropWhile (\<lambda>c. \<not> isspace c) rest, s) \<in> measure length" by simp
qed

declare split.simps [simp del]

text \<open>\<open>needle in haystack\<close> on strings: \<open>needle\<close> occurs as a contiguous substring.\<close>

fun is_prefix :: "pystr \<Rightarrow> pystr \<Rightarrow> bool" where
  "is_prefix [] ys = True"
| "is_prefix (x # xs) [] = False"
| "is_prefix (x # xs) (y # ys) = (x = y \<and> is_prefix xs ys)"

fun contains :: "pystr \<Rightarrow> pystr \<Rightarrow> bool" where
  "contains needle [] = (needle = [])"
| "contains needle (c # cs) = (is_prefix needle (c # cs) \<or> contains needle cs)"

section \<open>The link extractor\<close>

text \<open>The test of the loop body: \<open>"youtube.com" in token or "youtu.be" in token\<close>.\<close>

definition is_youtube_token :: "pystr \<Rightarrow> bool" where
  "is_youtube_token token \<longleftrightarrow>
     contains (str ''youtube.com'') token \<or> contains (str ''youtu.be'') token"

text \<open>The \<open>for token in ...\<close> loop with its early return; falling off the end gives \<open>None\<close>.\<close>

fun first_youtube_token :: "pystr list \<Rightarrow> pystr option" where
  "first_youtube_token [] = None"
| "first_youtube_token (token # tokens) =
     (if is_youtube_token token then Some token else first_youtube_token tokens)"

definition extract_youtube_url :: "pystr \<Rightarrow> pystr option" where
  "extract_youtube_url text = first_youtube_token (split (strip text))"

section \<open>Exceptions and JSON values\<close>

text \<open>
  The exception classes that the bot's calls can raise. All of them derive from
  Python's \<open>Exception\<close>. \<open>ConnectionError\<close>, \<open>Timeout\<close>, \<open>HTTPError\<close> and
  \<open>JSONDecodeError\<close> are the classes of \<open>requests.exceptions\<close>; since requests 2.27
  \<open>Response.json()\<close> raises \<open>requests.exceptions.JSONDecodeError\<close>, which derives from
  \<open>InvalidJSONError\<close> and so from \<open>RequestException\<close>. \<open>TelegramError\<close> stands for the
  errors of the chat platform's client library. Signals that derive from
  \<open>BaseException\<close> only (\<open>KeyboardInterrupt\<close>, the cancellation of a task) are not
  errors of the calls and are outside the model.
\<close>

datatype exn =
  ConnectionError | Timeout | HTTPError nat | JSONDecodeError
  | KeyError | IndexError | TypeError | ValueError | RecursionError | TelegramError

text \<open>\<open>isinstance(e, requests.exceptions.RequestException)\<close>.\<close>

fun is_RequestException :: "exn \<Rightarrow> bool" where
  "is_RequestException ConnectionError = True"
| "is_RequestException Timeout = True"
| "is_RequestException (HTTPError status) = True"
| "is_RequestException JSONDecodeError = True"
| "is_RequestException KeyError = False"
| "is_RequestException IndexError = False"
| "is_RequestException TypeError = False"
| "is_RequestException ValueError = False"
| "is_RequestException RecursionError = False"
| "is_RequestException TelegramError = False"

text \<open>
  The objects that \<open>response.json()\<close> can produce. A number keeps its literal, since
  the bot never computes with one; an object is the parsed \<open>dict\<close>, as an association
  list read with \<open>map_of\<close>.
\<close>

datatype json =
  JNull | JBool bool | JNumber pystr | JStr pystr
  | JArr "json list" | JObj "(pystr \<times> json) list"

definition and_then :: "exn + 'a \<Rightarrow> ('a \<Rightarrow> exn + 'b) \<Rightarrow> exn + 'b" where
  "and_then r f = (case r of Inl e \<Rightarrow> Inl e | Inr v \<Rightarrow> f v)"

text \<open>\<open>obj[key]\<close> for a string key: only a \<open>dict\<close> accepts it.\<close>

fun getitem_key :: "json \<Rightarrow> pystr \<Rightarrow> exn + json" where
  "getitem_key (JObj kvs) key =
     (case map_of kvs key of None \<Rightarrow> Inl KeyError | Some v \<Rightarrow> Inr v)"
| "getitem_key JNull key = Inl TypeError"
| "getitem_key (JBool b) key = Inl TypeError"
| "getitem_key (JNumber n) key = Inl TypeError"
| "getitem_key (JStr s) key = Inl TypeError"
| "getitem_key (JArr xs) key = Inl TypeError"

text \<open>
  \<open>obj[i]\<close> for an index \<open>i \<ge> 0\<close>: an element of a list, a one-character string of a
  string, \<open>KeyError\<close> on a \<open>dict\<close> (whose keys are all strings).
\<close>

fun getitem_index :: "json \<Rightarrow> nat \<Rightarrow> exn + json" where
  "getitem_index (JArr xs) i = (if i < length xs then Inr (xs ! i) else Inl IndexError)"
| "getitem_index (JStr s) i = (if i < length s then Inr (JStr [s ! i]) else Inl IndexError)"
| "getitem_index (JObj kvs) i = Inl KeyError"
| "getitem_index JNull i = Inl TypeError"
| "getitem_index (JBool b) i = Inl TypeError"
| "getitem_index (JNumber n) i = Inl TypeError"

text \<open>\<open>len(obj)\<close>.\<close>

fun py_len :: "json \<Rightarrow> exn + nat" where
  "py_len (JStr s) = Inr (length s)"
| "py_len (JArr xs) = Inr (length xs)"
| "py_len (JObj kvs) = Inr (length kvs)"
| "py_len JNull = Inl TypeError"
| "py_len (JBool b) = Inl TypeError"
| "py_len (JNumber n) = Inl TypeError"

text \<open>
  \<open>obj[i:j]\<close> for \<open>0 \<le> i\<close> and \<open>0 \<le> j\<close>: both bounds are clamped to the length, and
  the slice is empty when \<open>j \<le> i\<close>. A \<open>dict\<close> rejects a slice (with \<open>TypeError\<close> up to
  Python 3.11).
\<close>

definition slice :: "'a list \<Rightarrow> nat \<Rightarrow> nat \<Rightarrow> 'a list" where
  "slice xs i j = take (j - i) (drop i xs)"

fun py_getslice :: "json \<Rightarrow> nat \<Rightarrow> nat \<Rightarrow> exn + json" where
  "py_getslice (JStr s) i j = Inr (JStr (slice s i j))"
| "py_getslice (JArr xs) i j = Inr (JArr (slice xs i j))"
| "py_getslice (JObj kvs) i j = Inl TypeError"
| "py_getslice JNull i j = Inl TypeError"
| "py_getslice (JBool b) i j = Inl TypeError"
| "py_getslice (JNumber n) i j = Inl TypeError"

section \<open>The prompt\<close>

text \<open>
  \<open>template.format(**kw)\<close>, for the part of the format-string syntax that the template
  uses: literal text, the escapes \<open>{{\<close> and \<open>}}\<close>, and replacement fields \<open>{name}\<close>
  looked up among the keyword arguments. The second argument is the name of the field
  being read, if any. A lone \<open>}\<close> and an unclosed \<open>{\<close> raise \<open>ValueError\<close>, an unknown
  name raises \<open>KeyError\<close>. Conversions, format specifications and positional fields
  are not modelled: the template has none. The value of a field is inserted as it is
  and is never scanned.
\<close>

definition LBRACE :: nat where "LBRACE = 0x7B"
definition RBRACE :: nat where "RBRACE = 0x7D"

fun format_from :: "(pystr \<rightharpoonup> pystr) \<Rightarrow> pystr option \<Rightarrow> pystr \<Rightarrow> exn + pystr" where
  "format_from kw None [] = Inr []"
| "format_from kw (Some name) [] = Inl ValueError"
| "format_from kw None [c] =
     (if c = LBRACE \<or> c = RBRACE then Inl ValueError else Inr [c])"
| "format_from kw None (c # d # ds) =
     (if c = LBRACE then
        (if d = LBRACE then and_then (format_from kw None ds) (\<lambda>out. Inr (LBRACE # out))
         else format_from kw (Some []) (d # ds))
      else if c = RBRACE then
        (if d = RBRACE then and_then (format_from kw None ds) (\<lambda>out. Inr (RBRACE # out))
         else Inl ValueError)
      else and_then (format_from kw None (d # ds)) (\<lambda>out. Inr (c # out)))"
| "format_from kw (Some name) (c # cs) =
     (if c = RBRACE then
        (case kw name of
           None \<Rightarrow> Inl KeyError
         | Some v \<Rightarrow> and_then (format_from kw None cs) (\<lambda>out. Inr (v @ out)))
      else format_from kw (Some (name @ [c])) cs)"

definition py_format :: "pystr \<Rightarrow> (pystr \<rightharpoonup> pystr) \<Rightarrow> exn + pystr" where
  "py_format template kw = format_from kw None template"

text \<open>
  \<open>GEMINI_PROMPT_TEMPLATE\<close>: the text before the replacement field, the field, and the
  newline that ends the literal.
\<close>

definition PROMPT_INSTRUCTIONS :: pystr where
  \<open>PROMPT_INSTRUCTIONS = str (
     ''Identify and explain the core theses and insights from this video.\<newline>'' @
     ''\<newline>'' @
     ''Audience: Write for a crypto-native audience. '' @
     ''Use our jargon (e.g., "Fed," "JPOW," "bps," "QT," "TradFi," "liquidity," "FUD," "counterparty risk," etc.).\<newline>'' @
     ''\<newline>'' @
     ''Format: Use a simple list of standalone bullet points. Don't use two-part bullets.\<newline>'' @
     ''\<newline>'' @
     ''Specificity/Hedging: Be extremely specific. '' @
     ''Do not use hedging language (e.g., avoid words like "likely," "seems," "may," or "suggests"). '' @
     ''State facts and conclusions directly. '' @
     ''Include specific numbers or figures mentioned in the video '' @
     ''(e.g., 25 bps, 76 million, six basis points) where possible.\<newline>'' @
     ''\<newline>'' @
     ''Style: Speak directly to me in the second person. Do not use timestamps. '' @
     ''Do not say "the video says" or "the speaker argues." '' @
     ''Just state the key points as facts, as if you are explaining the situation to me yourself.\<newline>'' @
     ''\<newline>'' @
     ''Summarize this YouTube video: '')\<close>

definition GEMINI_PROMPT_TEMPLATE :: pystr where
  "GEMINI_PROMPT_TEMPLATE = PROMPT_INSTRUCTIONS @ str ''{youtube_url}'' @ str ''\<newline>''"

definition GEMINI_ENDPOINT :: pystr where
  "GEMINI_ENDPOINT =
     str ''https://generativelanguage.googleapis.com/v1beta/models/gemini-pro:generateContent''"

text \<open>Line 33 of the source: the prompt sent for a link.\<close>

definition build_prompt :: "pystr \<Rightarrow> exn + pystr" where
  "build_prompt youtube_url =
     py_format GEMINI_PROMPT_TEMPLATE [str ''youtube_url'' \<mapsto> youtube_url]"

section \<open>The summarization client\<close>

text \<open>
  The module's two globals, and the HTTP exchange. \<open>requests.post\<close> either raises or
  returns a response; of a response the client reads the status and what
  \<open>response.json()\<close> makes of the body: the parsed value; or a body that is not JSON;
  or a JSON body that the parser refuses, because it holds an integer of more digits
  than Python converts, or because it is nested deeper than the recursion limit.
\<close>

datatype body = Json json | NotJson | IntegerTooLong | NestedTooDeep

record config =
  TELEGRAM_BOT_TOKEN :: pystr
  GEMINI_API_KEY :: pystr

record request =
  url :: pystr
  headers :: "(pystr \<times> pystr) list"
  payload :: json
  timeout :: nat

record response =
  status_code :: nat
  parsed :: body

datatype http_outcome = Failed exn | Responded response

text \<open>\<open>response.raise_for_status()\<close>: \<open>HTTPError\<close> for a 4xx or 5xx status.\<close>

definition raise_for_status :: "response \<Rightarrow> exn option" where
  "raise_for_status r =
     (if 400 \<le> status_code r \<and> status_code r < 600 then Some (HTTPError (status_code r))
      else None)"

text \<open>
  \<open>response.json()\<close>: requests turns the parser's \<open>JSONDecodeError\<close> into its own, and
  lets the parser's \<open>ValueError\<close> and \<open>RecursionError\<close> through.
\<close>

definition response_json :: "response \<Rightarrow> exn + json" where
  "response_json r =
     (case parsed r of
        Json data \<Rightarrow> Inr data
      | NotJson \<Rightarrow> Inl JSONDecodeError
      | IntegerTooLong \<Rightarrow> Inl ValueError
      | NestedTooDeep \<Rightarrow> Inl RecursionError)"

definition FALLBACK :: pystr where
  "FALLBACK = str ''Sorry, something went wrong processing the summary.''"

text \<open>\<open>data['candidates'][0]['content']['parts'][0]['text']\<close>, left to right.\<close>

definition summary_of :: "json \<Rightarrow> exn + json" where
  "summary_of data =
     and_then (getitem_key data (str ''candidates'')) (\<lambda>candidates.
     and_then (getitem_index candidates 0) (\<lambda>candidate.
     and_then (getitem_key candidate (str ''content'')) (\<lambda>content.
     and_then (getitem_key content (str ''parts'')) (\<lambda>parts.
     and_then (getitem_index parts 0) (\<lambda>part.
     getitem_key part (str ''text''))))))"

text \<open>Lines 34 to 36: the request posted for a prompt.\<close>

definition gemini_request :: "config \<Rightarrow> pystr \<Rightarrow> request" where
  "gemini_request cfg prompt =
     \<lparr>url = GEMINI_ENDPOINT @ str ''?key='' @ GEMINI_API_KEY cfg,
      headers = [(str ''Content-Type'', str ''application/json'')],
      payload = JObj [(str ''contents'',
        JArr [JObj [(str ''parts'', JArr [JObj [(str ''text'', JStr prompt)]])]])],
      timeout = 60\<rparr>"

text \<open>
  \<open>call_gemini\<close>. Every exception before the \<open>try\<close> leaves the function; inside the
  \<open>try\<close>, \<open>except Exception\<close> turns any failure of the lookup into the fallback string.
\<close>

definition call_gemini :: "config \<Rightarrow> (request \<Rightarrow> http_outcome) \<Rightarrow> pystr \<Rightarrow> exn + json" where
  "call_gemini cfg post youtube_url =
     and_then (build_prompt youtube_url) (\<lambda>prompt.
       case post (gemini_request cfg prompt) of
         Failed e \<Rightarrow> Inl e
       | Responded r \<Rightarrow>
           (case raise_for_status r of
              Some e \<Rightarrow> Inl e
            | None \<Rightarrow>
                and_then (response_json r) (\<lambda>data.
                  case summary_of data of
                    Inl e \<Rightarrow> Inr (JStr FALLBACK)
                  | Inr summary \<Rightarrow> Inr summary)))"

section \<open>The chat adapter\<close>

text \<open>
  The calls that the handler makes on the chat platform, in order: \<open>reply_text\<close> with
  its argument, and \<open>ack.delete()\<close>. Each call is recorded when it is made, whether it
  then returns or raises. What the platform answers is a parameter: it may depend on
  the calls made so far. Logging is not recorded.
\<close>

datatype event = ReplyText json | DeleteAck

record platform =
  reply_raises :: "event list \<Rightarrow> json \<Rightarrow> exn option"
  delete_raises :: "event list \<Rightarrow> exn option"

text \<open>
  Of an update the handler reads \<open>update.message\<close>, which may be \<open>None\<close>, and of the
  message its \<open>text\<close>, which may be \<open>None\<close> too, and its \<open>chat_id\<close>. The field \<open>text\<close> is
  \<open>message_text\<close> here.
\<close>

record tg_message =
  message_text :: "pystr option"
  chat_id :: int

record tg_update =
  message :: "tg_message option"

definition reply_text :: "platform \<Rightarrow> json \<Rightarrow> event list \<Rightarrow> exn option \<times> event list" where
  "reply_text P v tr = (reply_raises P tr v, tr @ [ReplyText v])"

definition delete :: "platform \<Rightarrow> event list \<Rightarrow> exn option \<times> event list" where
  "delete P tr = (delete_raises P tr, tr @ [DeleteAck])"

definition max_len :: nat where
  "max_len = 4000"

definition ACK_TEXT :: pystr where
  "ACK_TEXT = str ''Got the link '' @ [0xE2, 0x20AC, 0x201D] @
     str '' fetching summary from Gemini...''"

definition ERROR_TEXT :: pystr where
  "ERROR_TEXT = str ''Error: failed to contact Gemini API.''"

text \<open>
  The loop \<open>for i in range(0, len(summary), max_len)\<close>, where \<open>n\<close> is the length taken
  once before the loop and \<open>i\<close> the current index; an exception ends it.
\<close>

function send_slices ::
  "platform \<Rightarrow> json \<Rightarrow> nat \<Rightarrow> nat \<Rightarrow> event list \<Rightarrow> exn option \<times> event list" where
  "send_slices P summary n i tr =
     (if i < n then
        (case py_getslice summary i (i + max_len) of
           Inl e \<Rightarrow> (Some e, tr)
         | Inr piece \<Rightarrow>
             (case reply_text P piece tr of
                (Some e, tr') \<Rightarrow> (Some e, tr')
              | (None, tr') \<Rightarrow> send_slices P summary n (i + max_len) tr'))
      else (None, tr))"
  by pat_completeness auto
termination
  by (relation "measure (\<lambda>(P, summary, n, i, tr). n - i)") (auto simp: max_len_def)

declare send_slices.simps [simp del]

text \<open>The body of the \<open>try\<close> (lines 61 to 67).\<close>

definition try_body ::
  "config \<Rightarrow> (request \<Rightarrow> http_outcome) \<Rightarrow> platform \<Rightarrow> pystr \<Rightarrow> event list
     \<Rightarrow> exn option \<times> event list" where
  "try_body cfg post P youtube_url tr =
     (case call_gemini cfg post youtube_url of
        Inl e \<Rightarrow> (Some e, tr)
      | Inr summary \<Rightarrow>
          (case py_len summary of
             Inl e \<Rightarrow> (Some e, tr)
           | Inr n \<Rightarrow>
               if n \<le> max_len then reply_text P summary tr
               else send_slices P summary n 0 tr))"

text \<open>
  The \<open>try\<close> with its \<open>except requests.exceptions.RequestException\<close> clause: the
  summarize-and-reply region, without the \<open>finally\<close>. An exception of another class,
  and one raised by the clause itself, leave the region.
\<close>

definition summarize_and_reply ::
  "config \<Rightarrow> (request \<Rightarrow> http_outcome) \<Rightarrow> platform \<Rightarrow> pystr \<Rightarrow> event list
     \<Rightarrow> exn option \<times> event list" where
  "summarize_and_reply cfg post P youtube_url tr =
     (case try_body cfg post P youtube_url tr of
        (None, tr') \<Rightarrow> (None, tr')
      | (Some e, tr') \<Rightarrow>
          if is_RequestException e then reply_text P (JStr ERROR_TEXT) tr'
          else (Some e, tr'))"

text \<open>
  \<open>handle_message\<close>: the exception that leaves the handler, if any, and the calls made
  on the platform. In the \<open>finally\<close>, \<open>except Exception: pass\<close> discards whatever
  \<open>ack.delete()\<close> raises.
\<close>

definition handle_message ::
  "config \<Rightarrow> (request \<Rightarrow> http_outcome) \<Rightarrow> platform \<Rightarrow> tg_update
     \<Rightarrow> exn option \<times> event list" where
  "handle_message cfg post P update =
     (case message update of
        None \<Rightarrow> (None, [])
      | Some msg \<Rightarrow>
          (case message_text msg of
             None \<Rightarrow> (None, [])
           | Some txt \<Rightarrow>
               if txt = [] then (None, [])
               else
                 (case extract_youtube_url txt of
                    None \<Rightarrow> (None, [])
                  | Some youtube_url \<Rightarrow>
                      if youtube_url = [] then (None, [])
                      else
                        (case reply_text P (JStr ACK_TEXT) [] of
                           (Some e, tr) \<Rightarrow> (Some e, tr)
                         | (None, tr) \<Rightarrow>
                             (case summarize_and_reply cfg post P youtube_url tr of
                                (outcome, tr') \<Rightarrow>
                                  (case delete P tr' of
                                     (Some e, tr'') \<Rightarrow> (outcome, tr'')
                                   | (None, tr'') \<Rightarrow> (outcome, tr'')))))))"

text \<open>The texts of the replies made after the acknowledgment.\<close>

fun reply_texts :: "event list \<Rightarrow> pystr list" where
  "reply_texts [] = []"
| "reply_texts (ReplyText (JStr s) # tr) = s # reply_texts tr"
| "reply_texts (ev # tr) = reply_texts tr"

definition chunks_sent :: "event list \<Rightarrow> pystr list" where
  "chunks_sent tr = tl (reply_texts tr)"

section \<open>Process start\<close>

text \<open>
  The module body up to the guard of line 11, run on the process environment:
  \<open>os.getenv\<close> gives \<open>None\<close> for a variable that is not set, and \<open>not v\<close> holds for
  \<open>None\<close> and for the empty string. \<open>Inl\<close> is the \<open>SystemExit\<close> with its message.
\<close>

definition getenv :: "(pystr \<rightharpoonup> pystr) \<Rightarrow> pystr \<Rightarrow> pystr option" where
  "getenv environ name = environ name"

fun falsy :: "pystr option \<Rightarrow> bool" where
  "falsy None = True"
| "falsy (Some s) = (s = [])"

definition EXIT_MESSAGE :: pystr where
  "EXIT_MESSAGE = str ''Set TELEGRAM_BOT_TOKEN and GEMINI_API_KEY environment variables''"

definition module_init :: "(pystr \<rightharpoonup> pystr) \<Rightarrow> pystr + config" where
  "module_init environ =
     (let token = getenv environ (str ''TELEGRAM_BOT_TOKEN'');
          key = getenv environ (str ''GEMINI_API_KEY'')
      in if falsy token \<or> falsy key then Inl EXIT_MESSAGE
         else Inr \<lparr>TELEGRAM_BOT_TOKEN = the token, GEMINI_API_KEY = the key\<rparr>)"

text \<open>
  What the process does when the file is run as a script: the exit of the guard, or
  the steps of \<open>main\<close>, the last of which is the event loop.
\<close>

datatype startup_step =
  SystemExit pystr | BuildApplication pystr | AddHandler | Print pystr | RunPolling

definition main :: "config \<Rightarrow> startup_step list" where
  "main cfg =
     [BuildApplication (TELEGRAM_BOT_TOKEN cfg), AddHandler, Print (str ''Bot starting...''),
      RunPolling]"

definition run_script :: "(pystr \<rightharpoonup> pystr) \<Rightarrow> startup_step list" where
  "run_script environ =
     (case module_init environ of Inl msg \<Rightarrow> [SystemExit msg] | Inr cfg \<Rightarrow> main cfg)"

section \<open>Notions of the specification\<close>

text \<open>
  The whitespace-delimited tokens of a text: the text is a run of whitespace, then a
  non-empty run of other characters that ends at a whitespace character or at the end
  of the text, then the rest, split in the same way.
\<close>

inductive tokenizes :: "pystr \<Rightarrow> pystr list \<Rightarrow> bool" where
  blank: "\<forall>c\<in>set w. isspace c \<Longrightarrow> tokenizes w []"
| token: "\<forall>c\<in>set w. isspace c \<Longrightarrow> t \<noteq> [] \<Longrightarrow> \<forall>c\<in>set t. \<not> isspace c \<Longrightarrow>
          rest = [] \<or> isspace (hd rest) \<Longrightarrow> tokenizes rest ts \<Longrightarrow>
          tokenizes (w @ t @ rest) (t # ts)"

text \<open>A token that contains one of the two host names as a substring.\<close>

definition is_substring :: "pystr \<Rightarrow> pystr \<Rightarrow> bool" where
  "is_substring needle hay \<longleftrightarrow> (\<exists>pre post. hay = pre @ needle @ post)"

definition mentions_host :: "pystr \<Rightarrow> bool" where
  "mentions_host t \<longleftrightarrow>
     is_substring (str ''youtube.com'') t \<or> is_substring (str ''youtu.be'') t"

text \<open>
  The expected shape of a response body,
  \<open>{"candidates": [{"content": {"parts": [{"text": <string>}]}}]}\<close>: the JSON path
  \<open>candidates[0].content.parts[0].text\<close> leads to a string, where a name selects the
  member of an object and \<open>[0]\<close> the first element of an array.
\<close>

fun member :: "json \<Rightarrow> pystr \<Rightarrow> json option" where
  "member (JObj kvs) name = map_of kvs name"
| "member _ name = None"

fun first_element :: "json \<Rightarrow> json option" where
  "first_element (JArr (x # xs)) = Some x"
| "first_element _ = None"

definition value_at_path :: "json \<Rightarrow> json option" where
  "value_at_path data =
     Option.bind (member data (str ''candidates'')) (\<lambda>candidates.
     Option.bind (first_element candidates) (\<lambda>candidate.
     Option.bind (member candidate (str ''content'')) (\<lambda>content.
     Option.bind (member content (str ''parts'')) (\<lambda>parts.
     Option.bind (first_element parts) (\<lambda>part.
     member part (str ''text''))))))"

definition has_expected_shape :: "json \<Rightarrow> bool" where
  "has_expected_shape data =
     (case value_at_path data of
        Some (JStr s) \<Rightarrow> True
      | _ \<Rightarrow> False)"

text \<open>The consecutive slices of \<open>n\<close> elements of a list, the last one possibly shorter.\<close>

function consecutive_slices :: "nat \<Rightarrow> 'a list \<Rightarrow> 'a list list" where
  "consecutive_slices n xs =
     (if n = 0 \<or> xs = [] then [] else take n xs # consecutive_slices n (drop n xs))"
  by pat_completeness auto
termination
  by (relation "measure (\<lambda>(n, xs). length xs)") auto

declare consecutive_slices.simps [simp del]

section \<open>Example inputs\<close>

definition example_config :: config where
  "example_config = \<lparr>TELEGRAM_BOT_TOKEN = str ''token'', GEMINI_API_KEY = str ''key''\<rparr>"

definition example_link :: pystr where
  "example_link = str ''https://youtu.be/abc123''"

definition example_update :: tg_update where
  "example_update =
     \<lparr>message = Some \<lparr>message_text = Some (str ''check this out https://youtu.be/abc123 thanks''),
                       chat_id = 1\<rparr>\<rparr>"

text \<open>A platform on which no call raises, and one on which only the deletion raises.\<close>

definition accepting :: platform where
  "accepting = \<lparr>reply_raises = (\<lambda>tr v. None), delete_raises = (\<lambda>tr. None)\<rparr>"

definition failing_delete :: platform where
  "failing_delete =
     \<lparr>reply_raises = (\<lambda>tr v. None), delete_raises = (\<lambda>tr. Some TelegramError)\<rparr>"

text \<open>A body of the expected shape around a value, and an endpoint with a fixed answer.\<close>

definition body_with :: "json \<Rightarrow> json" where
  "body_with v =
     JObj [(str ''candidates'',
       JArr [JObj [(str ''content'',
         JObj [(str ''parts'', JArr [JObj [(str ''text'', v)]])])]])]"

definition answering :: "http_outcome \<Rightarrow> request \<Rightarrow> http_outcome" where
  "answering outcome req = outcome"

text \<open>
  A response with status 200 that carries a summary, one with status 300 that carries
  one too, one with status 200 whose body is not JSON, one with status 200 whose body
  is \<open>{"error": null}\<close>, one with status 200 whose body has \<open>null\<close> where the summary
  should be, and one with status 503.
\<close>

definition ok_response :: "pystr \<Rightarrow> response" where
  "ok_response s = \<lparr>status_code = 200, parsed = Json (body_with (JStr s))\<rparr>"

definition status_300_response :: response where
  "status_300_response =
     \<lparr>status_code = 300, parsed = Json (body_with (JStr (str ''summary'')))\<rparr>"


definition error_body_response :: response where
  "error_body_response = \<lparr>status_code = 200, parsed = Json (JObj [(str ''error'', JNull)])\<rparr>"

definition null_text_response :: response where
  "null_text_response = \<lparr>status_code = 200, parsed = Json (body_with JNull)\<rparr>"

definition unavailable_response :: response where
  "unavailable_response = \<lparr>status_code = 503, parsed = NotJson\<rparr>"

definition long_summary :: pystr where
  "long_summary = replicate 8500 0x61"

text \<open>Process environments: both variables set, and the token set to the empty string.\<close>

definition example_environ :: "pystr \<rightharpoonup> pystr" where
  "example_environ =
     [str ''TELEGRAM_BOT_TOKEN'' \<mapsto> str ''token'', str ''GEMINI_API_KEY'' \<mapsto> str ''key'']"

definition empty_token_environ :: "pystr \<rightharpoonup> pystr" where
  "empty_token_environ =
     [str ''TELEGRAM_BOT_TOKEN'' \<mapsto> [], str ''GEMINI_API_KEY'' \<mapsto> str ''key'']"

text \<open>Updates without a link: no message, no text, and a text that names no host.\<close>

definition no_message_update :: tg_update where
  "no_message_update = \<lparr>message = None\<rparr>"

definition no_text_update :: tg_update where
  "no_text_update = \<lparr>message = Some \<lparr>message_text = None, chat_id = 1\<rparr>\<rparr>"

definition chatter_update :: tg_update where
  "chatter_update = \<lparr>message = Some \<lparr>message_text = Some (str ''hello there''), chat_id = 1\<rparr>\<rparr>"

section \<open>Lemmas on the Python primitives\<close>

lemma is_prefix_iff: "is_prefix xs ys \<longleftrightarrow> (\<exists>post. ys = xs @ post)"
  by (induction xs ys rule: is_prefix.induct) auto

lemma contains_iff: "contains needle hay \<longleftrightarrow> is_substring needle hay"
proof (induction hay)
  case Nil
  show ?case by (auto simp: is_substring_def)
next
  case (Cons c cs)
  show ?case
  proof
    assume "contains needle (c # cs)"
    then consider "is_prefix needle (c # cs)" | "contains needle cs" by auto
    then show "is_substring needle (c # cs)"
    proof cases
      case 1
      then obtain post where "c # cs = needle @ post" by (auto simp: is_prefix_iff)
      then have "c # cs = [] @ needle @ post" by simp
      then show ?thesis unfolding is_substring_def by blast
    next
      case 2
      with Cons obtain pre post where "cs = pre @ needle @ post" by (auto simp: is_substring_def)
      then have "c # cs = (c # pre) @ needle @ post" by simp
      then show ?thesis unfolding is_substring_def by blast
    qed
  next
    assume "is_substring needle (c # cs)"
    then obtain pre post where d: "c # cs = pre @ needle @ post" by (auto simp: is_substring_def)
    show "contains needle (c # cs)"
    proof (cases pre)
      case Nil
      with d have "is_prefix needle (c # cs)" by (auto simp: is_prefix_iff)
      then show ?thesis by simp
    next
      case (Cons p ps)
      with d have "cs = ps @ needle @ post" by simp
      then have "is_substring needle cs" unfolding is_substring_def by blast
      with Cons.IH show ?thesis by simp
    qed
  qed
qed

lemma is_youtube_token_iff: "is_youtube_token t \<longleftrightarrow> mentions_host t"
  by (simp add: is_youtube_token_def mentions_host_def contains_iff)

lemma first_youtube_token_find: "first_youtube_token ts = find mentions_host ts"
  by (induction ts) (simp_all add: is_youtube_token_iff)

lemma first_youtube_token_nonempty: "first_youtube_token ts = Some t \<Longrightarrow> t \<noteq> []"
  by (induction ts) (auto simp: is_youtube_token_def str_def split: if_splits)

section \<open>The tokens of \<open>split\<close>\<close>

lemma split_dropWhile: "split (dropWhile isspace s) = split s"
  by (subst (1 2) split.simps) simp

lemma split_blank: "\<forall>c\<in>set w. isspace c \<Longrightarrow> split w = []"
  by (subst split.simps) simp

lemma split_append_blank: "\<forall>c\<in>set w. isspace c \<Longrightarrow> split (w @ s) = split s"
  by (subst (1 2) split.simps) (simp add: dropWhile_append)

lemma tokenizes_split: "tokenizes s ts \<Longrightarrow> split s = ts"
proof (induction rule: tokenizes.induct)
  case (blank w)
  then show ?case by (rule split_blank)
next
  case (token w t rest ts)
  from token.hyps(2) obtain c cs where t: "t = c # cs" by (cases t) auto
  with token.hyps(3) have c: "\<not> isspace c" by simp
  have tw: "takeWhile (\<lambda>c. \<not> isspace c) (t @ rest) = t"
    using token.hyps(3,4) by (cases rest) (simp_all add: takeWhile_tail)
  have dw: "dropWhile (\<lambda>c. \<not> isspace c) (t @ rest) = rest"
    using token.hyps(3,4) by (cases rest) (simp_all add: dropWhile_append)
  have "split (w @ t @ rest) = split (t @ rest)"
    using token.hyps(1) by (rule split_append_blank)
  also have "\<dots> = t # split rest"
    using c tw dw by (subst split.simps) (simp add: t)
  finally show ?case using token.IH by simp
qed

lemma split_tokenizes: "tokenizes s (split s)"
proof (induction s rule: split.induct)
  case (1 s)
  define w where "w = takeWhile isspace s"
  define rest where "rest = dropWhile isspace s"
  have s: "s = w @ rest" by (simp add: w_def rest_def)
  have w: "\<forall>c\<in>set w. isspace c" unfolding w_def by (auto dest: set_takeWhileD)
  show ?case
  proof (cases "rest = []")
    case True
    then have "split s = []" by (subst split.simps) (simp add: rest_def)
    moreover have "tokenizes s []" using s w True by (auto intro: tokenizes.blank)
    ultimately show ?thesis by simp
  next
    case False
    define t where "t = takeWhile (\<lambda>c. \<not> isspace c) rest"
    define r where "r = dropWhile (\<lambda>c. \<not> isspace c) rest"
    have sp: "split s = t # split r"
      using False by (subst split.simps) (simp add: rest_def t_def r_def Let_def)
    have ih: "tokenizes r (split r)"
      using "1.IH"[OF rest_def False] by (simp add: r_def)
    have "\<not> isspace (hd rest)" using False unfolding rest_def by (metis hd_dropWhile)
    then have tne: "t \<noteq> []" using False unfolding t_def by (cases rest) auto
    have tns: "\<forall>c\<in>set t. \<not> isspace c" unfolding t_def by (auto dest: set_takeWhileD)
    have rr: "r = [] \<or> isspace (hd r)" unfolding r_def by (metis hd_dropWhile)
    have "tokenizes (w @ t @ r) (t # split r)"
      using w tne tns rr ih by (rule tokenizes.token)
    moreover have "w @ t @ r = s" by (simp add: s t_def r_def)
    ultimately show ?thesis using sp by simp
  qed
qed

lemma tokenizes_append_blank:
  "tokenizes x ts \<Longrightarrow> \<forall>c\<in>set w. isspace c \<Longrightarrow> tokenizes (x @ w) ts"
proof (induction rule: tokenizes.induct)
  case (blank v)
  then have "\<forall>c\<in>set (v @ w). isspace c" by auto
  then show ?case by (rule tokenizes.blank)
next
  case (token v t rest ts)
  have sep: "rest @ w = [] \<or> isspace (hd (rest @ w))"
    using token.hyps(4) token.prems by (cases rest; cases w) auto
  have "tokenizes (v @ t @ (rest @ w)) (t # ts)"
    using token.hyps(1,2,3) sep token.IH[OF token.prems] by (rule tokenizes.token)
  then show ?case by simp
qed

lemma split_strip: "split (strip s) = split s"
proof -
  define u where "u = dropWhile isspace s"
  define w where "w = rev (takeWhile isspace (rev u))"
  have w: "\<forall>c\<in>set w. isspace c" unfolding w_def by (auto dest: set_takeWhileD)
  have u: "strip s @ w = u"
    unfolding strip_def w_def u_def by (metis rev_append takeWhile_dropWhile_id rev_rev_ident)
  have "tokenizes (strip s @ w) (split (strip s))"
    using split_tokenizes w by (rule tokenizes_append_blank)
  then have "split u = split (strip s)" unfolding u by (rule tokenizes_split)
  then show ?thesis by (simp add: u_def split_dropWhile)
qed

lemma extract_youtube_url_find: "extract_youtube_url s = find mentions_host (split s)"
  by (simp add: extract_youtube_url_def split_strip first_youtube_token_find)

lemma extract_youtube_url_nonempty: "extract_youtube_url s = Some link \<Longrightarrow> link \<noteq> []"
  unfolding extract_youtube_url_def by (rule first_youtube_token_nonempty)

lemma extract_youtube_url_Some_text: "extract_youtube_url s = Some link \<Longrightarrow> s \<noteq> []"
  by (auto simp: extract_youtube_url_find split_blank)

section \<open>The link extractor returns the first matching token\<close>

text \<open>
  Claim C3. Every text has a whitespace tokenization; whatever it is, the extractor
  returns its first token that contains \<open>youtube.com\<close> or \<open>youtu.be\<close> as a substring,
  and \<open>None\<close> when no token does. A text that is empty or all whitespace gives \<open>None\<close>.
\<close>

theorem extract_youtube_url_first_matching_token:
  "(\<forall>ts. tokenizes txt ts \<longrightarrow> extract_youtube_url txt = find mentions_host ts) \<and>
   (\<exists>ts. tokenizes txt ts) \<and>
   ((\<forall>c\<in>set txt. isspace c) \<longrightarrow> extract_youtube_url txt = None)"
proof (intro conjI allI impI)
  fix ts assume "tokenizes txt ts"
  then have "split txt = ts" by (rule tokenizes_split)
  then show "extract_youtube_url txt = find mentions_host ts"
    by (simp add: extract_youtube_url_find)
next
  show "\<exists>ts. tokenizes txt ts" using split_tokenizes by blast
next
  assume "\<forall>c\<in>set txt. isspace c"
  then have "split txt = []" by (rule split_blank)
  then show "extract_youtube_url txt = None"
    by (simp add: extract_youtube_url_find)
qed

theorem extract_youtube_url_first_matching_token_witness:
  "tokenizes (str ''check this out https://youtu.be/abc123 thanks'')
     [str ''check'', str ''this'', str ''out'', str ''https://youtu.be/abc123'', str ''thanks''] \<and>
   extract_youtube_url (str ''check this out https://youtu.be/abc123 thanks'') =
     Some (str ''https://youtu.be/abc123'') \<and>
   list_all isspace (str ''  '') \<and> extract_youtube_url (str ''  '') = None"
proof -
  let ?txt = "str ''check this out https://youtu.be/abc123 thanks''"
  let ?ts = "[str ''check'', str ''this'', str ''out'', str ''https://youtu.be/abc123'', str ''thanks'']"
  have sp: "split ?txt = ?ts"
    by (simp add: split.simps str_def isspace_def)
  have tk: "tokenizes ?txt ?ts"
    using split_tokenizes [of ?txt] by (simp only: sp)
  have fd: "find is_youtube_token ?ts = Some (str ''https://youtu.be/abc123'')"
    by (simp add: is_youtube_token_def str_def)
  have "extract_youtube_url ?txt = find mentions_host ?ts"
    using extract_youtube_url_first_matching_token [of ?txt] tk by blast
  also have "\<dots> = find is_youtube_token ?ts"
    by (simp only: is_youtube_token_iff [abs_def])
  finally have ex: "extract_youtube_url ?txt = Some (str ''https://youtu.be/abc123'')"
    using fd by simp
  have bl: "list_all isspace (str ''  '')"
    by (simp add: str_def isspace_def)
  then have "\<forall>c\<in>set (str ''  ''). isspace c"
    by (simp add: list_all_iff)
  then have "extract_youtube_url (str ''  '') = None"
    using extract_youtube_url_first_matching_token [of "str ''  ''"] by blast
  with tk ex bl show ?thesis by blast
qed

section \<open>The prompt builder\<close>

lemma and_then_Inr [simp]: "and_then (Inr v) f = f v"
  by (simp add: and_then_def)

lemma and_then_Inl [simp]: "and_then (Inl e) f = Inl e"
  by (simp add: and_then_def)

lemma format_from_literal:
  "\<forall>c\<in>set lit. c \<noteq> LBRACE \<and> c \<noteq> RBRACE \<Longrightarrow>
   format_from kw None (lit @ rest) =
     and_then (format_from kw None rest) (\<lambda>out. Inr (lit @ out))"
proof (induction lit)
  case Nil
  show ?case by (cases "format_from kw None rest") simp_all
next
  case (Cons c lit)
  then have c: "c \<noteq> LBRACE" "c \<noteq> RBRACE" and
    ih: "format_from kw None (lit @ rest) =
           and_then (format_from kw None rest) (\<lambda>out. Inr (lit @ out))"
    by simp_all
  show ?case
  proof (cases "lit @ rest")
    case Nil
    then show ?thesis using c by simp
  next
    case (Cons d ds)
    have "format_from kw None ((c # lit) @ rest) =
            and_then (format_from kw None (lit @ rest)) (\<lambda>out. Inr (c # out))"
      using c by (simp add: Cons)
    then show ?thesis
      unfolding ih by (cases "format_from kw None rest") simp_all
  qed
qed

lemma str_append: "str (a @ b) = str a @ str b"
  by (simp add: str_def)

lemma PROMPT_INSTRUCTIONS_no_brace:
  "\<forall>c\<in>set PROMPT_INSTRUCTIONS. c \<noteq> LBRACE \<and> c \<noteq> RBRACE"
  unfolding PROMPT_INSTRUCTIONS_def str_append set_append ball_Un
  by (intro conjI; simp add: str_def LBRACE_def RBRACE_def)

lemma format_from_field:
  "format_from [str ''youtube_url'' \<mapsto> v] None (str ''{youtube_url}'' @ str ''\<newline>'') =
     Inr (v @ str ''\<newline>'')"
  by (simp add: str_def LBRACE_def RBRACE_def)

lemma build_prompt_eq:
  "build_prompt youtube_url = Inr (PROMPT_INSTRUCTIONS @ youtube_url @ str ''\<newline>'')"
  by (simp add: build_prompt_def py_format_def GEMINI_PROMPT_TEMPLATE_def
      format_from_literal [OF PROMPT_INSTRUCTIONS_no_brace] format_from_field)

text \<open>
  Claim C9. The prompt is a function of the link alone: for every link, whatever
  characters it contains (braces included), formatting the template succeeds and gives
  the fixed instructions, the link unchanged, and the final newline. So two links give
  the same prompt exactly when they are the same link.
\<close>

theorem build_prompt_inserts_link_verbatim:
  "build_prompt youtube_url = Inr (PROMPT_INSTRUCTIONS @ youtube_url @ str ''\<newline>'') \<and>
   (build_prompt a = build_prompt b \<longleftrightarrow> a = b)"
proof
  have "format_from [str ''youtube_url'' \<mapsto> youtube_url] None GEMINI_PROMPT_TEMPLATE =
      and_then
        (format_from [str ''youtube_url'' \<mapsto> youtube_url] None
           (str ''{youtube_url}'' @ str ''\<newline>''))
        (\<lambda>out. Inr (PROMPT_INSTRUCTIONS @ out))"
    unfolding GEMINI_PROMPT_TEMPLATE_def
    using PROMPT_INSTRUCTIONS_no_brace by (rule format_from_literal)
  also have "\<dots> = Inr (PROMPT_INSTRUCTIONS @ youtube_url @ str ''\<newline>'')"
    by (simp add: format_from_field)
  finally show "build_prompt youtube_url =
      Inr (PROMPT_INSTRUCTIONS @ youtube_url @ str ''\<newline>'')"
    by (simp add: build_prompt_def py_format_def)
next
  show "build_prompt a = build_prompt b \<longleftrightarrow> a = b"
    by (simp add: build_prompt_eq)
qed

section \<open>The summarization client\<close>

lemma call_gemini_post:
  "call_gemini cfg post link =
     (case post (gemini_request cfg (PROMPT_INSTRUCTIONS @ link @ str ''\<newline>'')) of
        Failed e \<Rightarrow> Inl e
      | Responded r \<Rightarrow>
          (case raise_for_status r of
             Some e \<Rightarrow> Inl e
           | None \<Rightarrow>
               and_then (response_json r) (\<lambda>data.
                 case summary_of data of
                   Inl e \<Rightarrow> Inr (JStr FALLBACK)
                 | Inr summary \<Rightarrow> Inr summary)))"
  by (simp add: call_gemini_def build_prompt_eq)

lemma and_then_Inr_iff: "and_then r f = Inr v \<longleftrightarrow> (\<exists>x. r = Inr x \<and> f x = Inr v)"
  by (cases r) simp_all

lemma getitem_key_member: "getitem_key obj name = Inr v \<longleftrightarrow> member obj name = Some v"
  by (cases obj) (auto split: option.splits)

lemma getitem_index_member:
  "(\<exists>y. getitem_index xs 0 = Inr y \<and> member y name = Some v) \<longleftrightarrow>
   (\<exists>y. first_element xs = Some y \<and> member y name = Some v)"
proof (cases xs)
  case (JArr ys)
  then show ?thesis by (cases ys) auto
qed auto

lemma summary_of_value_at_path: "summary_of data = Inr v \<longleftrightarrow> value_at_path data = Some v"
proof -
  have "summary_of data = Inr v \<longleftrightarrow>
    (\<exists>candidates. member data (str ''candidates'') = Some candidates \<and>
      (\<exists>candidate. getitem_index candidates 0 = Inr candidate \<and>
        (\<exists>content. member candidate (str ''content'') = Some content \<and>
          (\<exists>parts. member content (str ''parts'') = Some parts \<and>
            (\<exists>part. getitem_index parts 0 = Inr part \<and>
               member part (str ''text'') = Some v)))))"
    unfolding summary_of_def and_then_Inr_iff getitem_key_member ..
  also have "\<dots> \<longleftrightarrow>
    (\<exists>candidates. member data (str ''candidates'') = Some candidates \<and>
      (\<exists>candidate. getitem_index candidates 0 = Inr candidate \<and>
        (\<exists>content. member candidate (str ''content'') = Some content \<and>
          (\<exists>parts. member content (str ''parts'') = Some parts \<and>
            (\<exists>part. first_element parts = Some part \<and>
               member part (str ''text'') = Some v)))))"
    unfolding getitem_index_member ..
  also have "\<dots> \<longleftrightarrow>
    (\<exists>candidates. member data (str ''candidates'') = Some candidates \<and>
      (\<exists>candidate. first_element candidates = Some candidate \<and>
        (\<exists>content. member candidate (str ''content'') = Some content \<and>
          (\<exists>parts. member content (str ''parts'') = Some parts \<and>
            (\<exists>part. first_element parts = Some part \<and>
               member part (str ''text'') = Some v)))))"
    using getitem_index_member [where name = "str ''content''"] by blast
  also have "\<dots> \<longleftrightarrow> value_at_path data = Some v"
    unfolding value_at_path_def bind_eq_Some_conv ..
  finally show ?thesis .
qed

lemma has_expected_shape_iff:
  "has_expected_shape data \<longleftrightarrow> (\<exists>s. summary_of data = Inr (JStr s))"
  unfolding summary_of_value_at_path has_expected_shape_def
  by (auto split: option.splits json.splits)

lemma call_gemini_no_value:
  assumes "post (gemini_request cfg (PROMPT_INSTRUCTIONS @ link @ str ''\<newline>'')) = Responded r"
    and "raise_for_status r = None"
    and "parsed r = Json data"
    and "value_at_path data = None"
  shows "call_gemini cfg post link = Inr (JStr FALLBACK)"
proof -
  from assms(4) obtain e where "summary_of data = Inl e"
    using summary_of_value_at_path [of data] by (cases "summary_of data") auto
  with assms(1,2,3) show ?thesis
    by (simp add: call_gemini_post response_json_def)
qed

lemma call_gemini_value:
  assumes "post (gemini_request cfg (PROMPT_INSTRUCTIONS @ link @ str ''\<newline>'')) = Responded r"
    and "raise_for_status r = None"
    and "parsed r = Json data"
    and "value_at_path data = Some v"
  shows "call_gemini cfg post link = Inr v"
proof -
  from assms(4) have "summary_of data = Inr v"
    by (simp add: summary_of_value_at_path)
  with assms(1,2,3) show ?thesis
    by (simp add: call_gemini_post response_json_def)
qed


lemma value_at_path_body_with: "value_at_path (body_with v) = Some v"
  by (simp add: value_at_path_def body_with_def str_def)

section \<open>The handler on a message with a link\<close>

lemma handle_message_link:
  assumes "message u = Some m" and "message_text m = Some txt"
    and "extract_youtube_url txt = Some link"
  shows "handle_message cfg post P u =
    (case reply_raises P [] (JStr ACK_TEXT) of
       Some e \<Rightarrow> (Some e, [ReplyText (JStr ACK_TEXT)])
     | None \<Rightarrow>
         (fst (summarize_and_reply cfg post P link [ReplyText (JStr ACK_TEXT)]),
          snd (summarize_and_reply cfg post P link [ReplyText (JStr ACK_TEXT)]) @ [DeleteAck]))"
proof -
  have "txt \<noteq> []" using assms(3) by (rule extract_youtube_url_Some_text)
  moreover have "link \<noteq> []" using assms(3) by (rule extract_youtube_url_nonempty)
  ultimately show ?thesis
    using assms
    by (simp add: handle_message_def reply_text_def delete_def
        split: option.splits prod.splits)
qed

lemma summarize_and_reply_request_error:
  assumes "call_gemini cfg post link = Inl e" and "is_RequestException e"
  shows "summarize_and_reply cfg post P link tr =
    (reply_raises P tr (JStr ERROR_TEXT), tr @ [ReplyText (JStr ERROR_TEXT)])"
  using assms by (simp add: summarize_and_reply_def try_body_def reply_text_def)

lemma summarize_and_reply_other_error:
  assumes "call_gemini cfg post link = Inl e" and "\<not> is_RequestException e"
  shows "summarize_and_reply cfg post P link tr = (Some e, tr)"
  using assms by (simp add: summarize_and_reply_def try_body_def)

lemma example_update_link:
  "message example_update =
     Some \<lparr>message_text = Some (str ''check this out https://youtu.be/abc123 thanks''), chat_id = 1\<rparr>"
  "extract_youtube_url (str ''check this out https://youtu.be/abc123 thanks'') = Some example_link"
  by (simp_all add: example_update_def example_link_def extract_youtube_url_def strip_def
      split.simps str_def isspace_def is_youtube_token_def)

lemma send_slices_replies: "\<exists>vs. snd (send_slices P s n i tr) = tr @ map ReplyText vs"
proof (induction P s n i tr rule: send_slices.induct)
  case (1 P s n i tr)
  show ?case
  proof (cases "i < n")
    case False
    then have "snd (send_slices P s n i tr) = tr @ map ReplyText []"
      by (simp add: send_slices.simps)
    then show ?thesis by blast
  next
    case True
    show ?thesis
    proof (cases "py_getslice s i (i + max_len)")
      case (Inl e)
      with True have "snd (send_slices P s n i tr) = tr @ map ReplyText []"
        by (simp add: send_slices.simps [of P s n i tr])
      then show ?thesis by blast
    next
      case (Inr piece)
      show ?thesis
      proof (cases "reply_raises P tr piece")
        case (Some e)
        with True Inr have "snd (send_slices P s n i tr) = tr @ map ReplyText [piece]"
          by (simp add: send_slices.simps [of P s n i tr] reply_text_def)
        then show ?thesis by blast
      next
        case None
        have rt: "reply_text P piece tr = (None, tr @ [ReplyText piece])"
          using None by (simp add: reply_text_def)
        from "1.IH" [OF True Inr rt [symmetric] refl] obtain vs where
          "snd (send_slices P s n (i + max_len) (tr @ [ReplyText piece])) =
             (tr @ [ReplyText piece]) @ map ReplyText vs"
          by blast
        with True Inr rt have "snd (send_slices P s n i tr) = tr @ map ReplyText (piece # vs)"
          by (simp add: send_slices.simps [of P s n i tr])
        then show ?thesis by blast
      qed
    qed
  qed
qed

lemma try_body_replies: "\<exists>vs. snd (try_body cfg post P link tr) = tr @ map ReplyText vs"
proof (cases "call_gemini cfg post link")
  case (Inl e)
  then have "snd (try_body cfg post P link tr) = tr @ map ReplyText []"
    by (simp add: try_body_def)
  then show ?thesis by blast
next
  case (Inr summary)
  show ?thesis
  proof (cases "py_len summary")
    case (Inl e)
    with Inr have "snd (try_body cfg post P link tr) = tr @ map ReplyText []"
      by (simp add: try_body_def)
    then show ?thesis by blast
  next
    case len: (Inr n)
    show ?thesis
    proof (cases "n \<le> max_len")
      case True
      with Inr len have "snd (try_body cfg post P link tr) = tr @ map ReplyText [summary]"
        by (simp add: try_body_def reply_text_def)
      then show ?thesis by blast
    next
      case False
      with Inr len show ?thesis
        using send_slices_replies [of P summary n 0 tr] by (simp add: try_body_def)
    qed
  qed
qed

lemma summarize_and_reply_replies:
  "\<exists>vs. snd (summarize_and_reply cfg post P link tr) = tr @ map ReplyText vs"
proof -
  obtain r tr' where tb: "try_body cfg post P link tr = (r, tr')"
    by (cases "try_body cfg post P link tr")
  with try_body_replies [of cfg post P link tr] obtain vs where vs: "tr' = tr @ map ReplyText vs"
    by auto
  show ?thesis
  proof (cases "\<exists>e. r = Some e \<and> is_RequestException e")
    case True
    then have "snd (summarize_and_reply cfg post P link tr) =
        tr @ map ReplyText (vs @ [JStr ERROR_TEXT])"
      using tb vs by (auto simp: summarize_and_reply_def reply_text_def)
    then show ?thesis by blast
  next
    case False
    then have "snd (summarize_and_reply cfg post P link tr) = tr @ map ReplyText vs"
      using tb vs by (cases r) (auto simp: summarize_and_reply_def)
    then show ?thesis by blast
  qed
qed

lemma send_slices_delete_raises:
  "send_slices (P\<lparr>delete_raises := d\<rparr>) s n i tr = send_slices P s n i tr"
proof (induction P s n i tr rule: send_slices.induct)
  case (1 P s n i tr)
  show ?case
  proof (cases "i < n")
    case False
    then show ?thesis by (simp add: send_slices.simps)
  next
    case True
    show ?thesis
    proof (cases "py_getslice s i (i + max_len)")
      case (Inl e)
      with True show ?thesis
        by (simp add: send_slices.simps [of _ s n i tr])
    next
      case (Inr piece)
      show ?thesis
      proof (cases "reply_raises P tr piece")
        case (Some e)
        with True Inr show ?thesis
          by (simp add: send_slices.simps [of _ s n i tr] reply_text_def)
      next
        case None
        have rt: "reply_text P piece tr = (None, tr @ [ReplyText piece])"
          using None by (simp add: reply_text_def)
        have "send_slices (P\<lparr>delete_raises := d\<rparr>) s n (i + max_len) (tr @ [ReplyText piece]) =
              send_slices P s n (i + max_len) (tr @ [ReplyText piece])"
          using "1.IH" [OF True Inr rt [symmetric] refl] .
        with True Inr None show ?thesis
          by (simp add: send_slices.simps [of _ s n i tr] reply_text_def)
      qed
    qed
  qed
qed

lemma reply_text_delete_raises:
  "reply_text (P\<lparr>delete_raises := d\<rparr>) v tr = reply_text P v tr"
  by (simp add: reply_text_def)

lemma try_body_delete_raises:
  "try_body cfg post (P\<lparr>delete_raises := d\<rparr>) link tr = try_body cfg post P link tr"
  unfolding try_body_def reply_text_delete_raises send_slices_delete_raises ..

lemma summarize_and_reply_delete_raises:
  "summarize_and_reply cfg post (P\<lparr>delete_raises := d\<rparr>) link tr =
   summarize_and_reply cfg post P link tr"
  unfolding summarize_and_reply_def try_body_delete_raises reply_text_delete_raises ..

section \<open>Cleanup of the acknowledgment\<close>

text \<open>
  Claim C6. On a message with a link whose acknowledgment was sent, whatever the
  endpoint and the platform do: the handler's calls are those of the summarize-and-reply
  region followed by one \<open>ack.delete()\<close>, the region itself never deletes, the handler
  ends as the region ended, and what the deletion raises changes nothing (\<open>d\<close> is any
  behaviour of the deletion).
\<close>

theorem ack_deleted_on_every_path:
  assumes "message u = Some m" and "message_text m = Some txt"
    and "extract_youtube_url txt = Some link"
    and "reply_raises P [] (JStr ACK_TEXT) = None"
  shows "snd (handle_message cfg post P u) =
           snd (summarize_and_reply cfg post P link [ReplyText (JStr ACK_TEXT)]) @ [DeleteAck] \<and>
         DeleteAck \<notin> set (snd (summarize_and_reply cfg post P link [ReplyText (JStr ACK_TEXT)])) \<and>
         fst (handle_message cfg post P u) =
           fst (summarize_and_reply cfg post P link [ReplyText (JStr ACK_TEXT)]) \<and>
         handle_message cfg post (P\<lparr>delete_raises := d\<rparr>) u = handle_message cfg post P u"
proof -
  have h: "handle_message cfg post Q u =
      (fst (summarize_and_reply cfg post Q link [ReplyText (JStr ACK_TEXT)]),
       snd (summarize_and_reply cfg post Q link [ReplyText (JStr ACK_TEXT)]) @ [DeleteAck])"
    if "reply_raises Q [] (JStr ACK_TEXT) = None" for Q
    using handle_message_link [OF assms(1,2,3), of cfg post Q] that by simp
  obtain vs where
    "snd (summarize_and_reply cfg post P link [ReplyText (JStr ACK_TEXT)]) =
       [ReplyText (JStr ACK_TEXT)] @ map ReplyText vs"
    using summarize_and_reply_replies by blast
  then have "DeleteAck \<notin> set (snd (summarize_and_reply cfg post P link [ReplyText (JStr ACK_TEXT)]))"
    by auto
  moreover have "handle_message cfg post (P\<lparr>delete_raises := d\<rparr>) u = handle_message cfg post P u"
    using h [of P] h [of "P\<lparr>delete_raises := d\<rparr>"] assms(4)
    by (simp add: summarize_and_reply_delete_raises)
  ultimately show ?thesis using h [OF assms(4)] by simp
qed

lemma call_gemini_Failed:
  "call_gemini cfg (answering (Failed e)) link = Inl e"
  by (simp add: call_gemini_post answering_def)

theorem ack_deleted_on_every_path_witness:
  "message example_update =
     Some \<lparr>message_text = Some (str ''check this out https://youtu.be/abc123 thanks''), chat_id = 1\<rparr> \<and>
   extract_youtube_url (str ''check this out https://youtu.be/abc123 thanks'') = Some example_link \<and>
   reply_raises failing_delete [] (JStr ACK_TEXT) = None \<and>
   delete_raises failing_delete [ReplyText (JStr ACK_TEXT), ReplyText (JStr ERROR_TEXT)] =
     Some TelegramError \<and>
   handle_message example_config (answering (Failed Timeout)) failing_delete example_update =
     (None, [ReplyText (JStr ACK_TEXT), ReplyText (JStr ERROR_TEXT), DeleteAck])"
proof -
  have ack: "reply_raises failing_delete [] (JStr ACK_TEXT) = None"
    by (simp add: failing_delete_def)
  have del: "delete_raises failing_delete [ReplyText (JStr ACK_TEXT), ReplyText (JStr ERROR_TEXT)] =
      Some TelegramError"
    by (simp add: failing_delete_def)
  have region: "summarize_and_reply example_config (answering (Failed Timeout)) failing_delete
      example_link [ReplyText (JStr ACK_TEXT)] =
      (None, [ReplyText (JStr ACK_TEXT), ReplyText (JStr ERROR_TEXT)])"
    using summarize_and_reply_request_error
      [OF call_gemini_Failed, where e = Timeout and P = failing_delete]
    by (simp add: failing_delete_def)
  have "handle_message example_config (answering (Failed Timeout)) failing_delete example_update =
      (None, [ReplyText (JStr ACK_TEXT), ReplyText (JStr ERROR_TEXT), DeleteAck])"
    using ack_deleted_on_every_path [OF example_update_link(1) _ example_update_link(2) ack,
        where cfg = example_config and post = "answering (Failed Timeout)"]
    by (simp add: region prod_eq_iff)
  with example_update_link ack del show ?thesis by blast
qed

section \<open>Errors of the summarization client\<close>

lemma handle_message_request_error:
  assumes "message u = Some m" and "message_text m = Some txt"
    and "extract_youtube_url txt = Some link"
    and "reply_raises P [] (JStr ACK_TEXT) = None"
    and "call_gemini cfg post link = Inl e" and "is_RequestException e"
  shows "handle_message cfg post P u =
    (reply_raises P [ReplyText (JStr ACK_TEXT)] (JStr ERROR_TEXT),
     [ReplyText (JStr ACK_TEXT), ReplyText (JStr ERROR_TEXT), DeleteAck])"
  using handle_message_link [OF assms(1,2,3), of cfg post P] assms(4)
    summarize_and_reply_request_error [OF assms(5,6), of P "[ReplyText (JStr ACK_TEXT)]"]
  by simp

lemma handle_message_other_error:
  assumes "message u = Some m" and "message_text m = Some txt"
    and "extract_youtube_url txt = Some link"
    and "reply_raises P [] (JStr ACK_TEXT) = None"
    and "call_gemini cfg post link = Inl e" and "\<not> is_RequestException e"
  shows "handle_message cfg post P u = (Some e, [ReplyText (JStr ACK_TEXT), DeleteAck])"
  using handle_message_link [OF assms(1,2,3), of cfg post P] assms(4)
    summarize_and_reply_other_error [OF assms(5,6), of P "[ReplyText (JStr ACK_TEXT)]"]
  by simp

lemma handle_message_same_summary:
  assumes "message u = Some m" and "message_text m = Some txt"
    and "extract_youtube_url txt = Some link"
    and "call_gemini cfg post link = call_gemini cfg post' link"
  shows "handle_message cfg post P u = handle_message cfg post' P u"
proof -
  have "try_body cfg post P link tr = try_body cfg post' P link tr" for tr
    unfolding try_body_def assms(4) ..
  then have "summarize_and_reply cfg post P link tr = summarize_and_reply cfg post' P link tr" for tr
    unfolding summarize_and_reply_def by simp
  then show ?thesis
    using handle_message_link [OF assms(1,2,3), of cfg post P]
      handle_message_link [OF assms(1,2,3), of cfg post' P]
    by (simp split: option.split)
qed

lemma prompt_of_build_prompt:
  "build_prompt link = Inr prompt \<Longrightarrow> prompt = PROMPT_INSTRUCTIONS @ link @ str ''\<newline>''"
  by (simp add: build_prompt_eq)


text \<open>
  The two errors of the parser that are no \<open>RequestException\<close> leave the client as
  well, and the handler does not catch them.
\<close>

lemma call_gemini_parser_limit:
  assumes "post (gemini_request cfg (PROMPT_INSTRUCTIONS @ link @ str ''\<newline>'')) = Responded r"
    and "raise_for_status r = None"
  shows "parsed r = IntegerTooLong \<Longrightarrow> call_gemini cfg post link = Inl ValueError"
    and "parsed r = NestedTooDeep \<Longrightarrow> call_gemini cfg post link = Inl RecursionError"
  using assms by (simp_all add: call_gemini_post response_json_def)



lemma call_gemini_status_error:
  assumes "post (gemini_request cfg (PROMPT_INSTRUCTIONS @ link @ str ''\<newline>'')) = Responded r"
    and "400 \<le> status_code r" and "status_code r < 600"
  shows "call_gemini cfg post link = Inl (HTTPError (status_code r))"
  using assms by (simp add: call_gemini_post raise_for_status_def)

lemma call_gemini_transport_failure:
  assumes "post (gemini_request cfg (PROMPT_INSTRUCTIONS @ link @ str ''\<newline>'')) = Failed e"
  shows "call_gemini cfg post link = Inl e"
  using assms by (simp add: call_gemini_post)

lemma call_gemini_other_status:
  assumes "post (gemini_request cfg (PROMPT_INSTRUCTIONS @ link @ str ''\<newline>'')) = Responded r"
    and "\<not> (400 \<le> status_code r \<and> status_code r < 600)"
  shows "call_gemini cfg post link =
    call_gemini cfg (answering (Responded (r\<lparr>status_code := 200\<rparr>))) link"
proof -
  have "raise_for_status r = None" "raise_for_status (r\<lparr>status_code := 200\<rparr>) = None"
    using assms(2) by (simp_all add: raise_for_status_def)
  moreover have "response_json (r\<lparr>status_code := 200\<rparr>) = response_json r"
    by (simp add: response_json_def)
  ultimately show ?thesis
    using assms(1) by (simp add: call_gemini_post answering_def)
qed

text \<open>
  Claim C5, as amended. When the request fails in transport with a \<open>RequestException\<close>,
  or is answered with a 4xx or 5xx status, the client raises that exception (the
  \<open>HTTPError\<close> of the status in the second case) and nothing in the client catches it;
  if the acknowledgment was sent, the handler then replies with the text
  \<open>Error: failed to contact Gemini API.\<close> and no summary, deletes the acknowledgment, and
  ends as that reply ended. When the request is answered with any other status, the
  status raises nothing: the client and the handler do what they do for the same
  response with status 200.
\<close>

theorem request_error_reaches_adapter:
  assumes "message u = Some m" and "message_text m = Some txt"
    and "extract_youtube_url txt = Some link"
    and "build_prompt link = Inr prompt"
  shows "((\<exists>e. post (gemini_request cfg prompt) = Failed e \<and> is_RequestException e) \<or>
          (\<exists>r. post (gemini_request cfg prompt) = Responded r \<and>
               400 \<le> status_code r \<and> status_code r < 600) \<longrightarrow>
          (\<exists>e. call_gemini cfg post link = Inl e \<and> is_RequestException e \<and>
               (post (gemini_request cfg prompt) = Failed e \<or>
                (\<exists>r. post (gemini_request cfg prompt) = Responded r \<and>
                     e = HTTPError (status_code r)))) \<and>
          (reply_raises P [] (JStr ACK_TEXT) = None \<longrightarrow>
             handle_message cfg post P u =
               (reply_raises P [ReplyText (JStr ACK_TEXT)]
                  (JStr (str ''Error: failed to contact Gemini API.'')),
                [ReplyText (JStr ACK_TEXT),
                 ReplyText (JStr (str ''Error: failed to contact Gemini API.'')), DeleteAck]))) \<and>
         (\<forall>r. post (gemini_request cfg prompt) = Responded r \<and>
              \<not> (400 \<le> status_code r \<and> status_code r < 600) \<longrightarrow>
              call_gemini cfg post link =
                call_gemini cfg (answering (Responded (r\<lparr>status_code := 200\<rparr>))) link \<and>
              handle_message cfg post P u =
                handle_message cfg (answering (Responded (r\<lparr>status_code := 200\<rparr>))) P u)"
proof (intro conjI impI allI)
  have p: "prompt = PROMPT_INSTRUCTIONS @ link @ str ''\<newline>''"
    using assms(4) by (rule prompt_of_build_prompt)
  {
    assume h: "(\<exists>e. post (gemini_request cfg prompt) = Failed e \<and> is_RequestException e) \<or>
      (\<exists>r. post (gemini_request cfg prompt) = Responded r \<and>
         400 \<le> status_code r \<and> status_code r < 600)"
    from h obtain e where c: "call_gemini cfg post link = Inl e" and r: "is_RequestException e"
      and o: "post (gemini_request cfg prompt) = Failed e \<or>
              (\<exists>r. post (gemini_request cfg prompt) = Responded r \<and> e = HTTPError (status_code r))"
    proof
      assume "\<exists>e. post (gemini_request cfg prompt) = Failed e \<and> is_RequestException e"
      then obtain e where f: "post (gemini_request cfg prompt) = Failed e"
        and "is_RequestException e"
        by blast
      moreover have "call_gemini cfg post link = Inl e"
        using f unfolding p by (rule call_gemini_transport_failure)
      ultimately show ?thesis using that by blast
    next
      assume "\<exists>r. post (gemini_request cfg prompt) = Responded r \<and>
        400 \<le> status_code r \<and> status_code r < 600"
      then obtain r where f: "post (gemini_request cfg prompt) = Responded r"
        and s: "400 \<le> status_code r" "status_code r < 600"
        by blast
      have "call_gemini cfg post link = Inl (HTTPError (status_code r))"
        using f [unfolded p] s by (rule call_gemini_status_error)
      moreover have "is_RequestException (HTTPError (status_code r))" by simp
      ultimately show ?thesis using that f by blast
    qed
    from c r o show "\<exists>e. call_gemini cfg post link = Inl e \<and> is_RequestException e \<and>
        (post (gemini_request cfg prompt) = Failed e \<or>
         (\<exists>r. post (gemini_request cfg prompt) = Responded r \<and> e = HTTPError (status_code r)))"
      by blast
    assume a: "reply_raises P [] (JStr ACK_TEXT) = None"
    have "handle_message cfg post P u =
        (reply_raises P [ReplyText (JStr ACK_TEXT)] (JStr ERROR_TEXT),
         [ReplyText (JStr ACK_TEXT), ReplyText (JStr ERROR_TEXT), DeleteAck])"
      using assms(1,2,3) a c r by (rule handle_message_request_error)
    then show "handle_message cfg post P u =
        (reply_raises P [ReplyText (JStr ACK_TEXT)]
           (JStr (str ''Error: failed to contact Gemini API.'')),
         [ReplyText (JStr ACK_TEXT),
          ReplyText (JStr (str ''Error: failed to contact Gemini API.'')), DeleteAck])"
      by (simp add: ERROR_TEXT_def)
  }
  fix r
  assume "post (gemini_request cfg prompt) = Responded r \<and>
    \<not> (400 \<le> status_code r \<and> status_code r < 600)"
  then have f: "post (gemini_request cfg (PROMPT_INSTRUCTIONS @ link @ str ''\<newline>'')) = Responded r"
    and s: "\<not> (400 \<le> status_code r \<and> status_code r < 600)"
    unfolding p by simp_all
  from f s show c: "call_gemini cfg post link =
      call_gemini cfg (answering (Responded (r\<lparr>status_code := 200\<rparr>))) link"
    by (rule call_gemini_other_status)
  from assms(1,2,3) c show "handle_message cfg post P u =
      handle_message cfg (answering (Responded (r\<lparr>status_code := 200\<rparr>))) P u"
    by (rule handle_message_same_summary)
qed

theorem request_error_reaches_adapter_witness:
  "build_prompt example_link = Inr (PROMPT_INSTRUCTIONS @ example_link @ str ''\<newline>'') \<and>
   answering (Failed Timeout)
     (gemini_request example_config (PROMPT_INSTRUCTIONS @ example_link @ str ''\<newline>'')) =
     Failed Timeout \<and>
   is_RequestException Timeout \<and>
   reply_raises accepting [] (JStr ACK_TEXT) = None \<and>
   handle_message example_config (answering (Failed Timeout)) accepting example_update =
     (None, [ReplyText (JStr ACK_TEXT),
        ReplyText (JStr (str ''Error: failed to contact Gemini API.'')), DeleteAck]) \<and>
   answering (Responded unavailable_response)
     (gemini_request example_config (PROMPT_INSTRUCTIONS @ example_link @ str ''\<newline>'')) =
     Responded unavailable_response \<and>
   status_code unavailable_response = 503 \<and>
   handle_message example_config (answering (Responded unavailable_response))
     accepting example_update =
     (None, [ReplyText (JStr ACK_TEXT),
        ReplyText (JStr (str ''Error: failed to contact Gemini API.'')), DeleteAck]) \<and>
   answering (Responded status_300_response)
     (gemini_request example_config (PROMPT_INSTRUCTIONS @ example_link @ str ''\<newline>'')) =
     Responded status_300_response \<and>
   status_code status_300_response = 300 \<and>
   handle_message example_config (answering (Responded status_300_response))
     accepting example_update =
   handle_message example_config
     (answering (Responded (status_300_response\<lparr>status_code := 200\<rparr>)))
     accepting example_update"
proof -
  let ?prompt = "PROMPT_INSTRUCTIONS @ example_link @ str ''\<newline>''"
  have b: "build_prompt example_link = Inr ?prompt"
    by (rule build_prompt_eq)
  have a: "reply_raises accepting [] (JStr ACK_TEXT) = None"
    by (simp add: accepting_def)
  have f: "answering (Failed Timeout) (gemini_request example_config ?prompt) = Failed Timeout"
    by (simp add: answering_def)
  have g: "answering (Responded unavailable_response) (gemini_request example_config ?prompt) =
      Responded unavailable_response"
    by (simp add: answering_def)
  have h: "answering (Responded status_300_response) (gemini_request example_config ?prompt) =
      Responded status_300_response"
    by (simp add: answering_def)
  have s5: "status_code unavailable_response = 503"
    by (simp add: unavailable_response_def)
  have s3: "status_code status_300_response = 300"
    by (simp add: status_300_response_def)
  have w1: "handle_message example_config (answering (Failed Timeout)) accepting example_update =
      (None, [ReplyText (JStr ACK_TEXT),
         ReplyText (JStr (str ''Error: failed to contact Gemini API.'')), DeleteAck])"
    using request_error_reaches_adapter
      [where post = "answering (Failed Timeout)" and cfg = example_config and P = accepting,
        OF example_update_link(1) _ example_update_link(2) b] f a
    by (simp add: accepting_def)
  have w2: "handle_message example_config (answering (Responded unavailable_response))
      accepting example_update =
      (None, [ReplyText (JStr ACK_TEXT),
         ReplyText (JStr (str ''Error: failed to contact Gemini API.'')), DeleteAck])"
    using request_error_reaches_adapter
      [where post = "answering (Responded unavailable_response)" and cfg = example_config
         and P = accepting,
        OF example_update_link(1) _ example_update_link(2) b] g a s5
    by (simp add: accepting_def)
  have w3: "handle_message example_config (answering (Responded status_300_response))
      accepting example_update =
    handle_message example_config
      (answering (Responded (status_300_response\<lparr>status_code := 200\<rparr>)))
      accepting example_update"
    using request_error_reaches_adapter
      [where post = "answering (Responded status_300_response)" and cfg = example_config
         and P = accepting,
        OF example_update_link(1) _ example_update_link(2) b] h s3
    by simp
  from b f a w1 g s5 w2 h s3 w3 show ?thesis by simp
qed

section \<open>Responses of an unexpected shape\<close>

text \<open>
  Claim C4 fails on the code. A body with no value at
  \<open>candidates[0].content.parts[0].text\<close> makes the lookup raise inside the \<open>try\<close>, and
  the client returns the text \<open>Sorry, something went wrong processing the summary.\<close>.
  A body with a value there that is not a string does not have the expected shape
  either, but the lookup succeeds and the client returns that value: for \<open>null\<close> it
  returns \<open>None\<close>, on which \<open>len\<close> raises \<open>TypeError\<close> in the handler, which leaves the
  handler after the acknowledgment and its deletion, with no reply in between.
\<close>

theorem null_text_returned_without_fallback:
  "status_code null_text_response = 200 \<and>
   parsed null_text_response = Json (body_with JNull) \<and>
   \<not> has_expected_shape (body_with JNull) \<and>
   call_gemini example_config (answering (Responded null_text_response)) example_link =
     Inr JNull \<and>
   handle_message example_config (answering (Responded null_text_response)) accepting
     example_update =
     (Some TypeError, [ReplyText (JStr ACK_TEXT), DeleteAck]) \<and>
   \<not> has_expected_shape (JObj [(str ''error'', JNull)]) \<and>
   call_gemini example_config (answering (Responded error_body_response)) example_link =
     Inr (JStr (str ''Sorry, something went wrong processing the summary.''))"
proof -
  let ?prompt = "PROMPT_INSTRUCTIONS @ example_link @ str ''\<newline>''"
  have r: "status_code null_text_response = 200"
    "parsed null_text_response = Json (body_with JNull)"
    by (simp_all add: null_text_response_def)
  have n: "\<not> has_expected_shape (body_with JNull)"
    by (simp add: has_expected_shape_def value_at_path_body_with)
  have "answering (Responded null_text_response) (gemini_request example_config ?prompt) =
      Responded null_text_response"
    by (simp add: answering_def)
  moreover have "raise_for_status null_text_response = None"
    by (simp add: raise_for_status_def r(1))
  ultimately have c: "call_gemini example_config (answering (Responded null_text_response))
      example_link = Inr JNull"
    using r(2) value_at_path_body_with by (rule call_gemini_value)
  have "summarize_and_reply example_config (answering (Responded null_text_response)) accepting
      example_link [ReplyText (JStr ACK_TEXT)] = (Some TypeError, [ReplyText (JStr ACK_TEXT)])"
    by (simp add: summarize_and_reply_def try_body_def c)
  then have h: "handle_message example_config (answering (Responded null_text_response)) accepting
      example_update = (Some TypeError, [ReplyText (JStr ACK_TEXT), DeleteAck])"
    using handle_message_link [OF example_update_link(1) _ example_update_link(2),
        of example_config "answering (Responded null_text_response)" accepting]
    by (simp add: accepting_def)
  have e: "\<not> has_expected_shape (JObj [(str ''error'', JNull)])"
    by (simp add: has_expected_shape_def value_at_path_def str_def)
  have "answering (Responded error_body_response) (gemini_request example_config ?prompt) =
      Responded error_body_response"
    by (simp add: answering_def)
  moreover have "raise_for_status error_body_response = None"
    by (simp add: raise_for_status_def error_body_response_def)
  moreover have "parsed error_body_response = Json (JObj [(str ''error'', JNull)])"
    by (simp add: error_body_response_def)
  moreover have "value_at_path (JObj [(str ''error'', JNull)]) = None"
    by (simp add: value_at_path_def str_def)
  ultimately have "call_gemini example_config (answering (Responded error_body_response))
      example_link = Inr (JStr FALLBACK)"
    by (rule call_gemini_no_value)
  then have f: "call_gemini example_config (answering (Responded error_body_response))
      example_link = Inr (JStr (str ''Sorry, something went wrong processing the summary.''))"
    by (simp add: FALLBACK_def)
  from r n c h e f show ?thesis by simp
qed

section \<open>Chunking of the summary\<close>

lemma consecutive_slices_Nil: "consecutive_slices n [] = []"
  by (simp add: consecutive_slices.simps)

lemma consecutive_slices_step:
  "0 < n \<Longrightarrow> xs \<noteq> [] \<Longrightarrow>
   consecutive_slices n xs = take n xs # consecutive_slices n (drop n xs)"
  by (subst consecutive_slices.simps) simp

lemma concat_consecutive_slices: "0 < n \<Longrightarrow> concat (consecutive_slices n xs) = xs"
proof (induction n xs rule: consecutive_slices.induct)
  case (1 n xs)
  show ?case
  proof (cases "xs = []")
    case True
    then show ?thesis by (simp add: consecutive_slices_Nil)
  next
    case False
    with 1 show ?thesis by (simp add: consecutive_slices_step)
  qed
qed

lemma consecutive_slices_length_le:
  "c \<in> set (consecutive_slices n xs) \<Longrightarrow> length c \<le> n"
proof (induction n xs rule: consecutive_slices.induct)
  case (1 n xs)
  show ?case
  proof (cases "n = 0 \<or> xs = []")
    case True
    with "1.prems" show ?thesis by (simp add: consecutive_slices.simps)
  next
    case False
    with 1 show ?thesis by (auto simp: consecutive_slices_step)
  qed
qed

lemma consecutive_slices_butlast_length:
  "c \<in> set (butlast (consecutive_slices n xs)) \<Longrightarrow> length c = n"
proof (induction n xs rule: consecutive_slices.induct)
  case (1 n xs)
  show ?case
  proof (cases "n = 0 \<or> xs = []")
    case True
    with "1.prems" show ?thesis by (simp add: consecutive_slices.simps)
  next
    case False
    then have n: "0 < n" and xs: "xs \<noteq> []" by simp_all
    show ?thesis
    proof (cases "consecutive_slices n (drop n xs) = []")
      case True
      with "1.prems" n xs show ?thesis by (simp add: consecutive_slices_step)
    next
      case ne: False
      then have "drop n xs \<noteq> []" by (auto simp: consecutive_slices_Nil)
      then have len: "n < length xs" by simp
      from "1.prems" n xs ne
      have "c = take n xs \<or> c \<in> set (butlast (consecutive_slices n (drop n xs)))"
        by (simp add: consecutive_slices_step)
      then show ?thesis
      proof
        assume "c = take n xs"
        with len show ?thesis by simp
      next
        assume "c \<in> set (butlast (consecutive_slices n (drop n xs)))"
        with "1.IH" False show ?thesis by simp
      qed
    qed
  qed
qed

lemma consecutive_slices_8500:
  assumes "length xs = 8500"
  shows "consecutive_slices 4000 xs = [take 4000 xs, take 4000 (drop 4000 xs), drop 8000 xs]"
proof -
  have a: "xs \<noteq> []" "drop 4000 xs \<noteq> []" "drop 8000 xs \<noteq> []" "drop 12000 xs = []"
    using assms by auto
  have "consecutive_slices 4000 xs = take 4000 xs # consecutive_slices 4000 (drop 4000 xs)"
    using a(1) by (simp add: consecutive_slices_step)
  also have "consecutive_slices 4000 (drop 4000 xs) =
      take 4000 (drop 4000 xs) # consecutive_slices 4000 (drop 8000 xs)"
    using a(2) by (simp add: consecutive_slices_step)
  also have "consecutive_slices 4000 (drop 8000 xs) =
      take 4000 (drop 8000 xs) # consecutive_slices 4000 (drop 12000 xs)"
    using a(3) by (simp add: consecutive_slices_step)
  also have "take 4000 (drop 8000 xs) = drop 8000 xs"
    using assms by simp
  finally show ?thesis by (simp add: a(4) consecutive_slices_Nil)
qed

text \<open>On a platform where no reply raises, the loop sends the consecutive slices.\<close>

lemma send_slices_accepted:
  assumes "\<forall>tr v. reply_raises P tr v = None"
  shows "send_slices P (JStr s) (length s) i tr =
    (None, tr @ map (\<lambda>c. ReplyText (JStr c)) (consecutive_slices max_len (drop i s)))"
  using assms
proof (induction P "JStr s" "length s" i tr rule: send_slices.induct)
  case (1 P i tr)
  show ?case
  proof (cases "i < length s")
    case False
    then show ?thesis
      by (simp add: send_slices.simps [of P "JStr s" "length s" i tr] consecutive_slices_Nil)
  next
    case True
    let ?piece = "JStr (slice s i (i + max_len))"
    have rt: "reply_text P ?piece tr = (None, tr @ [ReplyText ?piece])"
      using "1.prems" by (simp add: reply_text_def)
    have ih: "send_slices P (JStr s) (length s) (i + max_len) (tr @ [ReplyText ?piece]) =
        (None, (tr @ [ReplyText ?piece]) @
          map (\<lambda>c. ReplyText (JStr c)) (consecutive_slices max_len (drop (i + max_len) s)))"
      using "1.hyps" [OF True _ rt [symmetric] refl "1.prems"] by simp
    have ne: "drop i s \<noteq> []" using True by simp
    have "consecutive_slices max_len (drop i s) =
        slice s i (i + max_len) # consecutive_slices max_len (drop (i + max_len) s)"
      using ne by (simp add: consecutive_slices_step max_len_def slice_def add.commute)
    with True rt ih show ?thesis
      by (simp add: send_slices.simps [of P "JStr s" "length s" i tr])
  qed
qed

lemma handle_message_summary:
  assumes "message u = Some m" and "message_text m = Some txt"
    and "extract_youtube_url txt = Some link"
    and "call_gemini cfg post link = Inr (JStr s)"
    and "\<forall>tr v. reply_raises P tr v = None"
  shows "handle_message cfg post P u =
    (None, ReplyText (JStr ACK_TEXT) #
       map (\<lambda>c. ReplyText (JStr c))
         (if length s \<le> max_len then [s] else consecutive_slices max_len s) @ [DeleteAck])"
proof -
  let ?tr = "[ReplyText (JStr ACK_TEXT)]"
  have body: "try_body cfg post P link ?tr =
      (None, ?tr @ map (\<lambda>c. ReplyText (JStr c))
         (if length s \<le> max_len then [s] else consecutive_slices max_len s))"
  proof (cases "length s \<le> max_len")
    case True
    then show ?thesis
      using assms(4,5) by (simp add: try_body_def reply_text_def)
  next
    case False
    then show ?thesis
      using assms(4) send_slices_accepted [OF assms(5), of s 0 ?tr]
      by (simp add: try_body_def)
  qed
  then have "summarize_and_reply cfg post P link ?tr =
      (None, ?tr @ map (\<lambda>c. ReplyText (JStr c))
         (if length s \<le> max_len then [s] else consecutive_slices max_len s))"
    by (simp add: summarize_and_reply_def)
  then show ?thesis
    using handle_message_link [OF assms(1,2,3), of cfg post P] assms(5) by simp
qed

lemma reply_texts_chunks:
  "reply_texts (map (\<lambda>c. ReplyText (JStr c)) cs @ [DeleteAck]) = cs"
  by (induction cs) simp_all

lemma chunks_sent_summary:
  "chunks_sent (ReplyText (JStr a) # map (\<lambda>c. ReplyText (JStr c)) cs @ [DeleteAck]) = cs"
  by (simp add: chunks_sent_def reply_texts_chunks)

lemma call_gemini_ok_response:
  "call_gemini cfg (answering (Responded (ok_response s))) link = Inr (JStr s)"
  by (simp add: call_gemini_post answering_def ok_response_def raise_for_status_def
      response_json_def summary_of_def body_with_def str_def)

text \<open>
  Claim C1. On a message with a link, when the client returns the string \<open>s\<close> and no
  call on the platform raises, the handler's calls are: the acknowledgment; then \<open>s\<close>
  as one reply if its length is at most 4000, and otherwise the consecutive slices of
  4000 characters of \<open>s\<close>, in order, one reply each; then the deletion of the
  acknowledgment. For a summary of 8500 characters these are three replies, of lengths
  4000, 4000 and 500.
\<close>

theorem summary_sent_whole_or_in_slices:
  assumes "message u = Some m" and "message_text m = Some txt"
    and "extract_youtube_url txt = Some link"
    and "call_gemini cfg post link = Inr (JStr s)"
    and "\<forall>tr v. reply_raises P tr v = None"
  shows "handle_message cfg post P u =
           (None, ReplyText (JStr ACK_TEXT) #
              map (\<lambda>c. ReplyText (JStr c))
                (if length s \<le> 4000 then [s] else consecutive_slices 4000 s) @ [DeleteAck]) \<and>
         (length s = 8500 \<longrightarrow>
            handle_message cfg post P u =
              (None, [ReplyText (JStr ACK_TEXT), ReplyText (JStr (take 4000 s)),
                 ReplyText (JStr (take 4000 (drop 4000 s))), ReplyText (JStr (drop 8000 s)),
                 DeleteAck]) \<and>
            length (take 4000 s) = 4000 \<and> length (take 4000 (drop 4000 s)) = 4000 \<and>
            length (drop 8000 s) = 500)"
proof -
  have h: "handle_message cfg post P u =
      (None, ReplyText (JStr ACK_TEXT) #
         map (\<lambda>c. ReplyText (JStr c))
           (if length s \<le> 4000 then [s] else consecutive_slices 4000 s) @ [DeleteAck])"
    using handle_message_summary [OF assms] by (simp add: max_len_def)
  moreover have "handle_message cfg post P u =
      (None, [ReplyText (JStr ACK_TEXT), ReplyText (JStr (take 4000 s)),
         ReplyText (JStr (take 4000 (drop 4000 s))), ReplyText (JStr (drop 8000 s)),
         DeleteAck])" if "length s = 8500"
    using h that by (simp add: consecutive_slices_8500)
  ultimately show ?thesis by simp
qed

theorem summary_sent_whole_or_in_slices_witness:
  "call_gemini example_config (answering (Responded (ok_response long_summary))) example_link =
     Inr (JStr long_summary) \<and>
   length long_summary = 8500 \<and>
   handle_message example_config (answering (Responded (ok_response long_summary))) accepting
     example_update =
     (None, [ReplyText (JStr ACK_TEXT), ReplyText (JStr (replicate 4000 0x61)),
        ReplyText (JStr (replicate 4000 0x61)), ReplyText (JStr (replicate 500 0x61)),
        DeleteAck]) \<and>
   handle_message example_config (answering (Responded (ok_response (str ''- point one'')))) accepting
     example_update =
     (None, [ReplyText (JStr ACK_TEXT), ReplyText (JStr (str ''- point one'')), DeleteAck])"
proof -
  have a: "\<forall>tr v. reply_raises accepting tr v = None"
    by (simp add: accepting_def)
  have len: "length long_summary = 8500"
    by (simp add: long_summary_def)
  have "handle_message example_config (answering (Responded (ok_response long_summary))) accepting
      example_update =
      (None, [ReplyText (JStr ACK_TEXT), ReplyText (JStr (take 4000 long_summary)),
         ReplyText (JStr (take 4000 (drop 4000 long_summary))),
         ReplyText (JStr (drop 8000 long_summary)), DeleteAck])"
    using summary_sent_whole_or_in_slices
      [OF example_update_link(1) _ example_update_link(2)
        call_gemini_ok_response [where cfg = example_config and s = long_summary] a] len
    by (simp add: consecutive_slices_8500)
  then have w1: "handle_message example_config (answering (Responded (ok_response long_summary)))
      accepting example_update =
      (None, [ReplyText (JStr ACK_TEXT), ReplyText (JStr (replicate 4000 0x61)),
         ReplyText (JStr (replicate 4000 0x61)), ReplyText (JStr (replicate 500 0x61)),
         DeleteAck])"
    by (simp add: long_summary_def)
  have w2: "handle_message example_config
      (answering (Responded (ok_response (str ''- point one'')))) accepting example_update =
      (None, [ReplyText (JStr ACK_TEXT), ReplyText (JStr (str ''- point one'')), DeleteAck])"
    using summary_sent_whole_or_in_slices
      [OF example_update_link(1) _ example_update_link(2)
        call_gemini_ok_response [where cfg = example_config and s = "str ''- point one''"] a]
    by (simp add: str_def)
  from call_gemini_ok_response len w1 w2 show ?thesis by simp
qed

text \<open>
  Claim C2. Under the same conditions, the texts sent after the acknowledgment, put
  together in the order sent, are the summary; none is longer than 4000 characters; and
  each of them but the last has exactly 4000.
\<close>

theorem chunks_reconstruct_summary:
  assumes "message u = Some m" and "message_text m = Some txt"
    and "extract_youtube_url txt = Some link"
    and "call_gemini cfg post link = Inr (JStr s)"
    and "\<forall>tr v. reply_raises P tr v = None"
  shows "concat (chunks_sent (snd (handle_message cfg post P u))) = s \<and>
         (\<forall>c\<in>set (chunks_sent (snd (handle_message cfg post P u))). length c \<le> 4000) \<and>
         (\<forall>c\<in>set (butlast (chunks_sent (snd (handle_message cfg post P u)))). length c = 4000)"
proof -
  have cs: "chunks_sent (snd (handle_message cfg post P u)) =
      (if length s \<le> 4000 then [s] else consecutive_slices 4000 s)"
    using handle_message_summary [OF assms]
    by (simp only: snd_conv chunks_sent_summary max_len_def)
  show ?thesis
  proof (cases "length s \<le> 4000")
    case True
    with cs show ?thesis by simp
  next
    case False
    with cs have "chunks_sent (snd (handle_message cfg post P u)) = consecutive_slices 4000 s"
      by simp
    then show ?thesis
      by (simp add: concat_consecutive_slices consecutive_slices_length_le
          consecutive_slices_butlast_length)
  qed
qed

theorem chunks_reconstruct_summary_witness:
  "chunks_sent (snd (handle_message example_config
      (answering (Responded (ok_response long_summary))) accepting example_update)) =
     [replicate 4000 0x61, replicate 4000 0x61, replicate 500 0x61] \<and>
   concat (chunks_sent (snd (handle_message example_config
      (answering (Responded (ok_response long_summary))) accepting example_update))) =
     long_summary"
proof -
  have a: "\<forall>tr v. reply_raises accepting tr v = None"
    by (simp add: accepting_def)
  have c: "concat (chunks_sent (snd (handle_message example_config
      (answering (Responded (ok_response long_summary))) accepting example_update))) =
      long_summary"
    using chunks_reconstruct_summary
      [OF example_update_link(1) _ example_update_link(2)
        call_gemini_ok_response [where cfg = example_config and s = long_summary] a]
    by simp
  have "handle_message example_config (answering (Responded (ok_response long_summary))) accepting
      example_update =
      (None, ReplyText (JStr ACK_TEXT) #
         map (\<lambda>c. ReplyText (JStr c))
           [replicate 4000 0x61, replicate 4000 0x61, replicate 500 0x61] @ [DeleteAck])"
    using handle_message_summary
      [OF example_update_link(1) _ example_update_link(2)
        call_gemini_ok_response [where cfg = example_config and s = long_summary] a]
    by (simp add: max_len_def consecutive_slices_8500 long_summary_def)
  then have "chunks_sent (snd (handle_message example_config
      (answering (Responded (ok_response long_summary))) accepting example_update)) =
      [replicate 4000 0x61, replicate 4000 0x61, replicate 500 0x61]"
    by (simp only: snd_conv chunks_sent_summary)
  with c show ?thesis by simp
qed

text \<open>
  The claim C5 as it was stated fails for a status that is neither 2xx nor 4xx nor 5xx:
  the response of status 300 is not in the 2xx range, yet the client raises nothing and
  returns its summary, and the handler sends the summary, not the error text.
\<close>

theorem status_300_summary_is_sent:
  "\<not> (200 \<le> status_code status_300_response \<and> status_code status_300_response < 300) \<and>
   call_gemini example_config (answering (Responded status_300_response)) example_link =
     Inr (JStr (str ''summary'')) \<and>
   handle_message example_config (answering (Responded status_300_response)) accepting
     example_update =
     (None, [ReplyText (JStr ACK_TEXT), ReplyText (JStr (str ''summary'')), DeleteAck])"
proof -
  have a: "\<forall>tr v. reply_raises accepting tr v = None"
    by (simp add: accepting_def)
  have c: "call_gemini example_config (answering (Responded status_300_response)) example_link =
      Inr (JStr (str ''summary''))"
    by (simp add: call_gemini_post answering_def status_300_response_def raise_for_status_def
        response_json_def summary_of_def body_with_def str_def)
  have "handle_message example_config (answering (Responded status_300_response)) accepting
      example_update =
      (None, [ReplyText (JStr ACK_TEXT), ReplyText (JStr (str ''summary'')), DeleteAck])"
    using handle_message_summary [OF example_update_link(1) _ example_update_link(2) c a]
    by (simp add: max_len_def str_def)
  with c show ?thesis by (simp add: status_300_response_def)
qed

section \<open>Messages without a link\<close>

lemma handle_message_no_link:
  assumes "message u = Some m" and "message_text m = Some txt"
    and "extract_youtube_url txt = None"
  shows "handle_message cfg post P u = (None, [])"
  using assms by (simp add: handle_message_def)

text \<open>
  Claim C7. An update with no message or no text, and a text message none of whose
  whitespace-delimited tokens contains \<open>youtube.com\<close> or \<open>youtu.be\<close>, makes the handler
  return without any call on the platform: no acknowledgment, no summary, no error
  text, whatever the endpoint and the platform would do.
\<close>

theorem no_link_no_reply:
  assumes "message u = None \<or>
    (\<exists>m. message u = Some m \<and>
       (message_text m = None \<or>
        (\<exists>txt ts. message_text m = Some txt \<and> tokenizes txt ts \<and>
           (\<forall>t\<in>set ts. \<not> mentions_host t))))"
  shows "handle_message cfg post P u = (None, [])"
proof (cases "message u")
  case None
  then show ?thesis by (simp add: handle_message_def)
next
  case (Some m)
  show ?thesis
  proof (cases "message_text m")
    case None
    with Some show ?thesis by (simp add: handle_message_def)
  next
    case body: (Some content)
    from assms Some body obtain ts where tk: "tokenizes content ts"
      and no: "\<forall>t\<in>set ts. \<not> mentions_host t"
      by auto
    from tk have "split content = ts" by (rule tokenizes_split)
    with no have "extract_youtube_url content = None"
      by (simp add: extract_youtube_url_find find_None_iff)
    with Some body show ?thesis by (rule handle_message_no_link)
  qed
qed

theorem no_link_no_reply_witness:
  "handle_message example_config (answering (Responded (ok_response (str ''summary''))))
     accepting no_message_update = (None, []) \<and>
   handle_message example_config (answering (Responded (ok_response (str ''summary''))))
     accepting no_text_update = (None, []) \<and>
   tokenizes (str ''hello there'') [str ''hello'', str ''there''] \<and>
   \<not> mentions_host (str ''hello'') \<and> \<not> mentions_host (str ''there'') \<and>
   handle_message example_config (answering (Responded (ok_response (str ''summary''))))
     accepting chatter_update = (None, [])"
proof -
  let ?post = "answering (Responded (ok_response (str ''summary'')))"
  have w1: "handle_message example_config ?post accepting no_message_update = (None, [])"
    using no_link_no_reply [of no_message_update example_config ?post accepting]
    by (simp add: no_message_update_def)
  have w2: "handle_message example_config ?post accepting no_text_update = (None, [])"
    using no_link_no_reply [of no_text_update example_config ?post accepting]
    by (simp add: no_text_update_def)
  have sp: "split (str ''hello there'') = [str ''hello'', str ''there'']"
    by (simp add: split.simps str_def isspace_def)
  have tk: "tokenizes (str ''hello there'') [str ''hello'', str ''there'']"
    using split_tokenizes [of "str ''hello there''"] by (simp only: sp)
  have nh: "\<not> mentions_host (str ''hello'')" "\<not> mentions_host (str ''there'')"
    unfolding is_youtube_token_iff [symmetric]
    by (simp_all add: is_youtube_token_def str_def)
  have "message chatter_update = Some \<lparr>message_text = Some (str ''hello there''), chat_id = 1\<rparr>"
    by (simp add: chatter_update_def)
  with tk nh have "message chatter_update = None \<or>
    (\<exists>m. message chatter_update = Some m \<and>
       (message_text m = None \<or>
        (\<exists>txt ts. message_text m = Some txt \<and> tokenizes txt ts \<and>
           (\<forall>t\<in>set ts. \<not> mentions_host t))))"
    by (intro disjI2 exI [of _ "\<lparr>message_text = Some (str ''hello there''), chat_id = 1\<rparr>"]
        conjI exI [of _ "str ''hello there''"] exI [of _ "[str ''hello'', str ''there'']"]) simp_all
  then have w3: "handle_message example_config ?post accepting chatter_update = (None, [])"
    by (rule no_link_no_reply)
  from w1 w2 tk nh w3 show ?thesis by blast
qed

section \<open>Process start\<close>

lemma module_init_exit:
  "falsy (environ (str ''TELEGRAM_BOT_TOKEN'')) \<or> falsy (environ (str ''GEMINI_API_KEY'')) \<Longrightarrow>
   module_init environ = Inl EXIT_MESSAGE"
  by (simp add: module_init_def getenv_def Let_def)

lemma module_init_config:
  "environ (str ''TELEGRAM_BOT_TOKEN'') = Some token \<Longrightarrow> token \<noteq> [] \<Longrightarrow>
   environ (str ''GEMINI_API_KEY'') = Some key \<Longrightarrow> key \<noteq> [] \<Longrightarrow>
   module_init environ = Inr \<lparr>TELEGRAM_BOT_TOKEN = token, GEMINI_API_KEY = key\<rparr>"
  by (simp add: module_init_def getenv_def Let_def)

text \<open>
  The claim C8 as it was stated fails for a variable that is set to the empty string:
  both variables are present in this environment, yet the process exits with the
  message and never starts the event loop.
\<close>

theorem empty_token_exits:
  "empty_token_environ (str ''TELEGRAM_BOT_TOKEN'') = Some [] \<and>
   empty_token_environ (str ''GEMINI_API_KEY'') = Some (str ''key'') \<and>
   run_script empty_token_environ = [SystemExit EXIT_MESSAGE] \<and>
   RunPolling \<notin> set (run_script empty_token_environ)"
proof -
  have t: "empty_token_environ (str ''TELEGRAM_BOT_TOKEN'') = Some []"
    and k: "empty_token_environ (str ''GEMINI_API_KEY'') = Some (str ''key'')"
    by (simp_all add: empty_token_environ_def str_def)
  have "module_init empty_token_environ = Inl EXIT_MESSAGE"
    using t by (intro module_init_exit) simp
  then have "run_script empty_token_environ = [SystemExit EXIT_MESSAGE]"
    by (simp add: run_script_def)
  with t k show ?thesis by simp
qed

text \<open>
  Claim C8, as amended. When either variable is not set or is set to the empty string,
  the process exits at once with the message and the event loop is never started.
  When both are set to non-empty strings, the module keeps them as its two globals and
  \<open>main\<close> runs: it builds the application with the token, registers the handler,
  prints, and starts the event loop; nothing exits.
\<close>

theorem startup_needs_nonempty_credentials:
  "(environ (str ''TELEGRAM_BOT_TOKEN'') = None \<or> environ (str ''TELEGRAM_BOT_TOKEN'') = Some [] \<or>
    environ (str ''GEMINI_API_KEY'') = None \<or> environ (str ''GEMINI_API_KEY'') = Some [] \<longrightarrow>
      run_script environ = [SystemExit EXIT_MESSAGE] \<and> RunPolling \<notin> set (run_script environ)) \<and>
   (\<forall>token key.
      environ (str ''TELEGRAM_BOT_TOKEN'') = Some token \<and> token \<noteq> [] \<and>
      environ (str ''GEMINI_API_KEY'') = Some key \<and> key \<noteq> [] \<longrightarrow>
      module_init environ = Inr \<lparr>TELEGRAM_BOT_TOKEN = token, GEMINI_API_KEY = key\<rparr> \<and>
      run_script environ =
        [BuildApplication token, AddHandler, Print (str ''Bot starting...''), RunPolling])"
proof (intro conjI allI impI)
  assume "environ (str ''TELEGRAM_BOT_TOKEN'') = None \<or> environ (str ''TELEGRAM_BOT_TOKEN'') = Some [] \<or>
    environ (str ''GEMINI_API_KEY'') = None \<or> environ (str ''GEMINI_API_KEY'') = Some []"
  then have "falsy (environ (str ''TELEGRAM_BOT_TOKEN'')) \<or> falsy (environ (str ''GEMINI_API_KEY''))"
    by auto
  then have "module_init environ = Inl EXIT_MESSAGE" by (rule module_init_exit)
  then show "run_script environ = [SystemExit EXIT_MESSAGE]"
    and "RunPolling \<notin> set (run_script environ)"
    by (simp_all add: run_script_def)
next
  fix token key
  assume "environ (str ''TELEGRAM_BOT_TOKEN'') = Some token \<and> token \<noteq> [] \<and>
    environ (str ''GEMINI_API_KEY'') = Some key \<and> key \<noteq> []"
  then have m: "module_init environ = Inr \<lparr>TELEGRAM_BOT_TOKEN = token, GEMINI_API_KEY = key\<rparr>"
    by (simp add: module_init_config)
  then show "module_init environ = Inr \<lparr>TELEGRAM_BOT_TOKEN = token, GEMINI_API_KEY = key\<rparr>" .
  from m show "run_script environ =
      [BuildApplication token, AddHandler, Print (str ''Bot starting...''), RunPolling]"
    by (simp add: run_script_def main_def)
qed

theorem startup_needs_nonempty_credentials_witness:
  "run_script Map.empty = [SystemExit EXIT_MESSAGE] \<and>
   run_script empty_token_environ = [SystemExit EXIT_MESSAGE] \<and>
   example_environ (str ''TELEGRAM_BOT_TOKEN'') = Some (str ''token'') \<and>
   example_environ (str ''GEMINI_API_KEY'') = Some (str ''key'') \<and>
   run_script example_environ =
     [BuildApplication (str ''token''), AddHandler, Print (str ''Bot starting...''), RunPolling]"
proof -
  have w1: "run_script Map.empty = [SystemExit EXIT_MESSAGE]"
    using startup_needs_nonempty_credentials [of Map.empty] by simp
  have "empty_token_environ (str ''TELEGRAM_BOT_TOKEN'') = Some []"
    by (simp add: empty_token_environ_def str_def)
  then have w2: "run_script empty_token_environ = [SystemExit EXIT_MESSAGE]"
    using startup_needs_nonempty_credentials [of empty_token_environ] by simp
  have t: "example_environ (str ''TELEGRAM_BOT_TOKEN'') = Some (str ''token'')"
    and k: "example_environ (str ''GEMINI_API_KEY'') = Some (str ''key'')"
    by (simp_all add: example_environ_def str_def)
  have ne: "str ''token'' \<noteq> []" "str ''key'' \<noteq> []"
    by (simp_all add: str_def)
  have w3: "run_script example_environ =
      [BuildApplication (str ''token''), AddHandler, Print (str ''Bot starting...''), RunPolling]"
    using startup_needs_nonempty_credentials [of example_environ] t k ne by blast
  from w1 w2 t k w3 show ?thesis by simp
qed

end
